theory Spec2Isabelle
  imports Complex_Main "HOL-Library.Char_ord" "HOL-Library.List_Lexorder"
begin

section \<open>Strings and integers as the formatter uses them\<close>

text \<open>
  A Python \<open>str\<close> is modelled as a \<open>string\<close>: a list of 8-bit characters, read as the
  code points 0 to 255. Python's unbounded \<open>int\<close> is \<open>int\<close>.
\<close>

definition digit_char :: "nat \<Rightarrow> char" where
  "digit_char d = ''0123456789'' ! d"

text \<open>\<open>str(n)\<close> for a non-negative integer: its decimal digits, most significant first.\<close>

fun str_nat :: "nat \<Rightarrow> string" where
  "str_nat n = (if n < 10 then [digit_char n] else str_nat (n div 10) @ [digit_char (n mod 10)])"

declare str_nat.simps [simp del]

text \<open>\<open>str(i)\<close> for any integer: a minus sign in front of a negative one.\<close>

definition str_int :: "int \<Rightarrow> string" where
  "str_int i = (if i < 0 then CHR ''-'' # str_nat (nat (- i)) else str_nat (nat i))"

section \<open>Citation formatter state\<close>

datatype CitationStyle = APA | MLA | CHICAGO | IEEE

text \<open>
  The fields of a \<open>CitationFormatter\<close> object: the style, the year read from the clock at
  construction, and the IEEE numbering state (\<open>_citation_counter\<close>, \<open>_citation_map\<close>).
\<close>

record formatter =
  style :: CitationStyle
  current_year :: int
  citation_counter :: int
  citation_map :: "string \<rightharpoonup> int"

text \<open>\<open>__init__\<close>: the clock's year is a parameter.\<close>

definition init_formatter :: "CitationStyle \<Rightarrow> int \<Rightarrow> formatter" where
  "init_formatter s now_year =
     \<lparr>style = s, current_year = now_year, citation_counter = 0, citation_map = Map.empty\<rparr>"

definition set_style :: "formatter \<Rightarrow> CitationStyle \<Rightarrow> formatter" where
  "set_style st s =
     (let st1 = st\<lparr>style := s\<rparr>
      in if s = IEEE then st1\<lparr>citation_counter := 0, citation_map := Map.empty\<rparr> else st1)"

definition reset_state :: "formatter \<Rightarrow> formatter" where
  "reset_state st = st\<lparr>citation_counter := 0, citation_map := Map.empty\<rparr>"

text \<open>Python's truth value of an \<open>Optional[str]\<close>: \<open>None\<close> and the empty string are false.\<close>

fun truthy_opt :: "string option \<Rightarrow> bool" where
  "truthy_opt None = False"
| "truthy_opt (Some s) = (s \<noteq> [])"

text \<open>
  \<open>_format_ieee_in_text\<close>: a filename that has no number yet gets the next one; the
  citation is built from the number stored for the filename. The updated formatter is
  returned with the text.
\<close>

definition format_ieee_in_text :: "formatter \<Rightarrow> string \<Rightarrow> string option \<Rightarrow> string \<times> formatter" where
  "format_ieee_in_text st filename page =
     (let st1 = (if citation_map st filename = None
                 then st\<lparr>citation_counter := citation_counter st + 1,
                         citation_map := (citation_map st)(filename \<mapsto> citation_counter st + 1)\<rparr>
                 else st);
          number = the (citation_map st1 filename)
      in (if truthy_opt page
          then ''['' @ str_int number @ '', p. '' @ the page @ '']''
          else ''['' @ str_int number @ '']'', st1))"

text \<open>
  A sequence of calls to the IEEE in-text formatter, each with its filename and page:
  the texts returned, in call order, and the formatter after the last call.
\<close>

fun cite_seq :: "formatter \<Rightarrow> (string \<times> string option) list \<Rightarrow> string list \<times> formatter" where
  "cite_seq st [] = ([], st)"
| "cite_seq st (c # cs) =
     (let (out, st1) = format_ieee_in_text st (fst c) (snd c);
          (outs, st2) = cite_seq st1 cs
      in (out # outs, st2))"

text \<open>The text of an IEEE in-text citation with a given number.\<close>

definition ieee_text :: "int \<Rightarrow> string option \<Rightarrow> string" where
  "ieee_text n page =
     (if truthy_opt page then ''['' @ str_int n @ '', p. '' @ the page @ '']''
      else ''['' @ str_int n @ '']'')"

text \<open>
  The number a filename has after the calls \<open>cs\<close> from a reset formatter, as the
  specification words it: one more than the number of distinct filenames cited before
  its first citation.
\<close>

definition first_cite_number :: "string list \<Rightarrow> string \<Rightarrow> int" where
  "first_cite_number fs f = int (card (set (takeWhile (\<lambda>g. g \<noteq> f) fs))) + 1"

section \<open>Python string operations\<close>

text \<open>
  The operations of \<open>str\<close> that the program uses, on code points 0 to 255. Character
  classes are those of CPython for text: \<open>str.isspace\<close> and the \<open>\s\<close> of \<open>re\<close> hold
  of the code points 9 to 13, 28 to 32, 133 and 160; \<open>\d\<close> holds of the ten ASCII digits.
\<close>

definition code :: "char \<Rightarrow> nat" where
  "code c = of_char c"

definition in_range :: "char \<Rightarrow> char \<Rightarrow> char \<Rightarrow> bool" where
  "in_range lo hi c = (code lo \<le> code c \<and> code c \<le> code hi)"

definition is_space :: "char \<Rightarrow> bool" where
  "is_space c = (let n = code c in (9 \<le> n \<and> n \<le> 13) \<or> (28 \<le> n \<and> n \<le> 32) \<or> n = 133 \<or> n = 160)"

definition is_digit :: "char \<Rightarrow> bool" where
  "is_digit c = in_range CHR ''0'' CHR ''9'' c"

text \<open>
  \<open>str.lower\<close>, one character: the capitals A to Z and the capitals 192 to 222 other
  than the multiplication sign 215 move up by 32.
\<close>

definition lower_char :: "char \<Rightarrow> char" where
  "lower_char c =
     (let n = code c
      in if (65 \<le> n \<and> n \<le> 90) \<or> (192 \<le> n \<and> n \<le> 222 \<and> n \<noteq> 215) then char_of (n + 32) else c)"

definition lower :: "string \<Rightarrow> string" where
  "lower s = map lower_char s"

text \<open>\<open>s.strip()\<close>: whitespace removed at both ends.\<close>

definition lstrip :: "string \<Rightarrow> string" where
  "lstrip s = dropWhile is_space s"

definition rstrip :: "string \<Rightarrow> string" where
  "rstrip s = rev (dropWhile is_space (rev s))"

definition strip :: "string \<Rightarrow> string" where
  "strip s = rstrip (lstrip s)"

text \<open>\<open>s.startswith(p)\<close>.\<close>

fun startswith :: "string \<Rightarrow> string \<Rightarrow> bool" where
  "startswith s [] = True"
| "startswith [] (p # ps) = False"
| "startswith (c # cs) (p # ps) = (c = p \<and> startswith cs ps)"

text \<open>\<open>p in s\<close> for strings: \<open>p\<close> occurs in \<open>s\<close> as a substring.\<close>

fun contains :: "string \<Rightarrow> string \<Rightarrow> bool" where
  "contains [] p = (p = [])"
| "contains (c # cs) p = (startswith (c # cs) p \<or> contains cs p)"

text \<open>\<open>s.find(p)\<close>: the first index where \<open>p\<close> occurs, or -1.\<close>

fun find_from :: "int \<Rightarrow> string \<Rightarrow> string \<Rightarrow> int" where
  "find_from i [] p = (if p = [] then i else -1)"
| "find_from i (c # cs) p = (if startswith (c # cs) p then i else find_from (i + 1) cs p)"

definition find :: "string \<Rightarrow> string \<Rightarrow> int" where
  "find s p = find_from 0 s p"

text \<open>
  \<open>s.replace(old, new)\<close> for a non-empty \<open>old\<close>: every occurrence, left to right, without
  overlap. The first argument counts the characters still to skip of an occurrence found.
\<close>

fun replace_from :: "nat \<Rightarrow> string \<Rightarrow> string \<Rightarrow> string \<Rightarrow> string" where
  "replace_from k old new [] = []"
| "replace_from (Suc k) old new (c # cs) = replace_from k old new cs"
| "replace_from 0 old new (c # cs) =
     (if startswith (c # cs) old then new @ replace_from (length old - 1) old new cs
      else c # replace_from 0 old new cs)"

definition replace :: "string \<Rightarrow> string \<Rightarrow> string \<Rightarrow> string" where
  "replace s old new = replace_from 0 old new s"

text \<open>
  \<open>s.split(sep)\<close> for a non-empty \<open>sep\<close>: the pieces between the occurrences of \<open>sep\<close>,
  empty pieces kept. The accumulator holds the current piece reversed.
\<close>

fun split_from :: "nat \<Rightarrow> string \<Rightarrow> string \<Rightarrow> string \<Rightarrow> string list" where
  "split_from k sep acc [] = [rev acc]"
| "split_from (Suc k) sep acc (c # cs) = split_from k sep acc cs"
| "split_from 0 sep acc (c # cs) =
     (if startswith (c # cs) sep then rev acc # split_from (length sep - 1) sep [] cs
      else split_from 0 sep (c # acc) cs)"

definition split :: "string \<Rightarrow> string \<Rightarrow> string list" where
  "split s sep = split_from 0 sep [] s"

text \<open>\<open>s.split()\<close>: the maximal runs of non-whitespace characters.\<close>

fun split_ws_from :: "string \<Rightarrow> string \<Rightarrow> string list" where
  "split_ws_from acc [] = (if acc = [] then [] else [rev acc])"
| "split_ws_from acc (c # cs) =
     (if is_space c then (if acc = [] then split_ws_from [] cs else rev acc # split_ws_from [] cs)
      else split_ws_from (c # acc) cs)"

definition split_ws :: "string \<Rightarrow> string list" where
  "split_ws s = split_ws_from [] s"

text \<open>\<open>sep.join(parts)\<close>.\<close>

fun join :: "string \<Rightarrow> string list \<Rightarrow> string" where
  "join sep [] = []"
| "join sep [p] = p"
| "join sep (p # q # ps) = p @ sep @ join sep (q # ps)"

section \<open>Regular expressions as the \<open>re\<close> module matches them\<close>

text \<open>
  The patterns of the program are written as terms of \<open>rx\<close>. Matching is the backtracking
  search of \<open>re\<close>: \<open>rx_match\<close> lists the ways a pattern can match from a position in the
  order in which the backtracking matcher tries them (greedy repetitions longest first,
  lazy ones shortest first, alternatives left to right), so the head of the list is the
  match that \<open>re\<close> reports.
\<close>

datatype citem = Ch char | Rng char char | Cspace | Cdigit

datatype cset = Dot | In "citem list" | NotIn "citem list"

datatype rx =
    Eps
  | Atom cset
  | Seq rx rx
  | Alt rx rx
  | Star rx
  | LazyStar rx
  | Group nat rx
  | Bol
  | Eol

text \<open>The flags in use: \<open>re.IGNORECASE\<close> and \<open>re.DOTALL\<close>.\<close>

record flags =
  ignorecase :: bool
  dotall :: bool

definition no_flags :: flags where
  "no_flags = \<lparr>ignorecase = False, dotall = False\<rparr>"

definition IGNORECASE :: flags where
  "IGNORECASE = \<lparr>ignorecase = True, dotall = False\<rparr>"

text \<open>
  A matcher state: the number of characters consumed so far, the rest of the text, and
  the groups captured so far (the latest capture of a group first).
\<close>

record mstate =
  pos :: nat
  rest :: string
  caps :: "(nat \<times> string) list"

fun citem_has :: "citem \<Rightarrow> char \<Rightarrow> bool" where
  "citem_has (Ch x) c = (c = x)"
| "citem_has (Rng lo hi) c = in_range lo hi c"
| "citem_has Cspace c = is_space c"
| "citem_has Cdigit c = is_digit c"

text \<open>
  Membership of a character in a set. Under \<open>IGNORECASE\<close> a character also matches
  through its lower-case form and through the lower-case forms of the set's characters,
  which is how \<open>re\<close> compares the code points 0 to 255 among themselves.
\<close>

fun citem_has_ic :: "citem \<Rightarrow> char \<Rightarrow> bool" where
  "citem_has_ic (Ch x) c = (lower_char c = lower_char x)"
| "citem_has_ic it c = (citem_has it c \<or> citem_has it (lower_char c))"

fun cset_has :: "flags \<Rightarrow> cset \<Rightarrow> char \<Rightarrow> bool" where
  "cset_has fl Dot c = (dotall fl \<or> c \<noteq> CHR 0x0A)"
| "cset_has fl (In its) c = list_ex (\<lambda>it. if ignorecase fl then citem_has_ic it c else citem_has it c) its"
| "cset_has fl (NotIn its) c = (\<not> list_ex (\<lambda>it. if ignorecase fl then citem_has_ic it c else citem_has it c) its)"

text \<open>
  Repetition: at most \<open>n\<close> further rounds, each of which must consume a character. A
  round of a pattern of the program always consumes one, and \<open>n\<close> is taken larger than
  the rest of the text, so the bound is never reached.
\<close>

fun star_iter :: "(mstate \<Rightarrow> mstate list) \<Rightarrow> nat \<Rightarrow> mstate \<Rightarrow> mstate list" where
  "star_iter m 0 st = [st]"
| "star_iter m (Suc n) st =
     concat (map (star_iter m n) (filter (\<lambda>st'. pos st < pos st') (m st))) @ [st]"

fun lazy_iter :: "(mstate \<Rightarrow> mstate list) \<Rightarrow> nat \<Rightarrow> mstate \<Rightarrow> mstate list" where
  "lazy_iter m 0 st = [st]"
| "lazy_iter m (Suc n) st =
     st # concat (map (lazy_iter m n) (filter (\<lambda>st'. pos st < pos st') (m st)))"

text \<open>A group records the text consumed between its start and its end.\<close>

definition close_group :: "nat \<Rightarrow> mstate \<Rightarrow> mstate \<Rightarrow> mstate" where
  "close_group g st0 st1 = st1\<lparr>caps := (g, take (pos st1 - pos st0) (rest st0)) # caps st1\<rparr>"

text \<open>\<open>$\<close> without \<open>re.MULTILINE\<close>: at the end of the text or before a final newline.\<close>

definition at_eol :: "string \<Rightarrow> bool" where
  "at_eol s = (s = [] \<or> s = [CHR 0x0A])"

primrec rx_match :: "flags \<Rightarrow> rx \<Rightarrow> mstate \<Rightarrow> mstate list" where
  "rx_match fl Eps st = [st]"
| "rx_match fl (Atom cs) st =
     (case rest st of
        [] \<Rightarrow> []
      | c # s \<Rightarrow> if cset_has fl cs c then [st\<lparr>pos := Suc (pos st), rest := s\<rparr>] else [])"
| "rx_match fl (Seq r1 r2) st = concat (map (rx_match fl r2) (rx_match fl r1 st))"
| "rx_match fl (Alt r1 r2) st = rx_match fl r1 st @ rx_match fl r2 st"
| "rx_match fl (Star r) st = star_iter (rx_match fl r) (Suc (length (rest st))) st"
| "rx_match fl (LazyStar r) st = lazy_iter (rx_match fl r) (Suc (length (rest st))) st"
| "rx_match fl (Group g r) st = map (close_group g st) (rx_match fl r st)"
| "rx_match fl Bol st = (if pos st = 0 then [st] else [])"
| "rx_match fl Eol st = (if at_eol (rest st) then [st] else [])"

text \<open>Pattern notation: \<open>r+\<close>, \<open>r?\<close>, \<open>r{n}\<close>, a literal text, a sequence.\<close>

definition Plus :: "rx \<Rightarrow> rx" where
  "Plus r = Seq r (Star r)"

definition Opt :: "rx \<Rightarrow> rx" where
  "Opt r = Alt r Eps"

fun Rep :: "nat \<Rightarrow> rx \<Rightarrow> rx" where
  "Rep 0 r = Eps"
| "Rep (Suc n) r = Seq r (Rep n r)"

definition Lit :: "char \<Rightarrow> rx" where
  "Lit c = Atom (In [Ch c])"

fun Seqs :: "rx list \<Rightarrow> rx" where
  "Seqs [] = Eps"
| "Seqs [r] = r"
| "Seqs (r # rs) = Seq r (Seqs rs)"

definition Lits :: "string \<Rightarrow> rx" where
  "Lits s = Seqs (map Lit s)"

text \<open>\<open>\s\<close>, \<open>\d\<close> and \<open>.\<close> as patterns.\<close>

definition Space :: rx where
  "Space = Atom (In [Cspace])"

definition Digit :: rx where
  "Digit = Atom (In [Cdigit])"

definition AnyChar :: rx where
  "AnyChar = Atom Dot"

text \<open>
  The match that \<open>re\<close> reports at a start position: the first way the pattern matches
  there, or none.
\<close>

definition match_at :: "flags \<Rightarrow> rx \<Rightarrow> nat \<Rightarrow> string \<Rightarrow> mstate option" where
  "match_at fl r p s =
     (case rx_match fl r \<lparr>pos = p, rest = s, caps = []\<rparr> of [] \<Rightarrow> None | m # _ \<Rightarrow> Some m)"

text \<open>\<open>re.match\<close>: at the start of the text only.\<close>

definition re_match :: "flags \<Rightarrow> rx \<Rightarrow> string \<Rightarrow> mstate option" where
  "re_match fl r s = match_at fl r 0 s"

text \<open>
  \<open>re.search\<close>: the first start position, from the left, where the pattern matches.
  The result is the start position, the text from there on, and the match.
\<close>

fun search_from :: "flags \<Rightarrow> rx \<Rightarrow> nat \<Rightarrow> string \<Rightarrow> (nat \<times> string \<times> mstate) option" where
  "search_from fl r p [] = (case match_at fl r p [] of None \<Rightarrow> None | Some m \<Rightarrow> Some (p, [], m))"
| "search_from fl r p (c # s) =
     (case match_at fl r p (c # s) of
        Some m \<Rightarrow> Some (p, c # s, m)
      | None \<Rightarrow> search_from fl r (Suc p) s)"

definition re_search :: "flags \<Rightarrow> rx \<Rightarrow> string \<Rightarrow> (nat \<times> string \<times> mstate) option" where
  "re_search fl r s = search_from fl r 0 s"

text \<open>\<open>m.group(g)\<close>: the latest capture of group \<open>g\<close>, \<open>None\<close> when it took no part.\<close>

definition group :: "mstate \<Rightarrow> nat \<Rightarrow> string option" where
  "group m g = map_of (caps m) g"

text \<open>\<open>m.group(0)\<close> of a match that started with the text \<open>s\<close> at position \<open>p\<close>.\<close>

definition group0 :: "nat \<times> string \<times> mstate \<Rightarrow> string" where
  "group0 r = (case r of (p, s, m) \<Rightarrow> take (pos m - p) s)"

text \<open>
  \<open>re.sub(pattern, repl, s)\<close> with a constant replacement, and \<open>re.findall\<close> and
  \<open>re.split\<close>: the matches are found left to right without overlap; after a match
  that consumed nothing the scan moves on by one character. The first argument counts
  the characters of the last match still to skip.
\<close>

fun sub_from :: "flags \<Rightarrow> rx \<Rightarrow> string \<Rightarrow> nat \<Rightarrow> nat \<Rightarrow> string \<Rightarrow> string" where
  "sub_from fl r repl k p [] =
     (if k = 0 \<and> match_at fl r p [] \<noteq> None then repl else [])"
| "sub_from fl r repl (Suc k) p (c # s) = sub_from fl r repl k (Suc p) s"
| "sub_from fl r repl 0 p (c # s) =
     (case match_at fl r p (c # s) of
        None \<Rightarrow> c # sub_from fl r repl 0 (Suc p) s
      | Some m \<Rightarrow>
          if pos m = p then repl @ c # sub_from fl r repl 0 (Suc p) s
          else repl @ sub_from fl r repl (pos m - p - 1) (Suc p) s)"

definition re_sub :: "flags \<Rightarrow> rx \<Rightarrow> string \<Rightarrow> string \<Rightarrow> string" where
  "re_sub fl r repl s = sub_from fl r repl 0 0 s"

text \<open>\<open>re.findall\<close> for a pattern with one group: group 1 of every match.\<close>

fun findall_from :: "flags \<Rightarrow> rx \<Rightarrow> nat \<Rightarrow> nat \<Rightarrow> string \<Rightarrow> string list" where
  "findall_from fl r k p [] =
     (if k = 0 then (case match_at fl r p [] of None \<Rightarrow> [] | Some m \<Rightarrow> [case group m 1 of None \<Rightarrow> [] | Some g \<Rightarrow> g])
      else [])"
| "findall_from fl r (Suc k) p (c # s) = findall_from fl r k (Suc p) s"
| "findall_from fl r 0 p (c # s) =
     (case match_at fl r p (c # s) of
        None \<Rightarrow> findall_from fl r 0 (Suc p) s
      | Some m \<Rightarrow>
          (case group m 1 of None \<Rightarrow> [] | Some g \<Rightarrow> g) #
          (if pos m = p then findall_from fl r 0 (Suc p) s
           else findall_from fl r (pos m - p - 1) (Suc p) s))"

definition re_findall :: "flags \<Rightarrow> rx \<Rightarrow> string \<Rightarrow> string list" where
  "re_findall fl r s = findall_from fl r 0 0 s"

text \<open>
  \<open>int(s)\<close> for a string: the whitespace that \<open>int\<close> accepts around the number (the
  code points 9 to 13, 32, 133 and 160) is dropped, then comes an optional sign and
  decimal digits, with single underscores allowed between digits. Anything else raises
  \<open>ValueError\<close>, which is \<open>None\<close> here.
\<close>

definition is_int_space :: "char \<Rightarrow> bool" where
  "is_int_space c = (let n = code c in (9 \<le> n \<and> n \<le> 13) \<or> n = 32 \<or> n = 133 \<or> n = 160)"

definition digit_val :: "char \<Rightarrow> int" where
  "digit_val c = int (code c) - 48"

text \<open>The digits and underscores after the sign: the value of the digits read so far is carried along.\<close>

fun int_digits :: "int \<Rightarrow> bool \<Rightarrow> string \<Rightarrow> int option" where
  "int_digits acc after_digit [] = (if after_digit then Some acc else None)"
| "int_digits acc after_digit (c # cs) =
     (if is_digit c then int_digits (10 * acc + digit_val c) True cs
      else if c = CHR ''_'' \<and> after_digit \<and> cs \<noteq> [] \<and> is_digit (hd cs) then int_digits acc False cs
      else None)"

definition py_int :: "string \<Rightarrow> int option" where
  "py_int s =
     (let t = rev (dropWhile is_int_space (rev (dropWhile is_int_space s)))
      in case t of
           [] \<Rightarrow> None
         | c # cs \<Rightarrow>
             if c = CHR ''-'' then map_option uminus (int_digits 0 False cs)
             else if c = CHR ''+'' then int_digits 0 False cs
             else int_digits 0 False (c # cs))"

section \<open>Source metadata\<close>

text \<open>
  The metadata dictionary of a source. A text field that is absent from the dictionary
  and one that holds the empty string are read alike by every \<open>get\<close> of the program
  with one exception, \<open>journal\<close>, whose absence makes the formatter fall back on
  \<open>subject\<close>: so \<open>journal\<close> is optional and the other fields are empty when absent. The
  advisory fields \<open>num_pages\<close>, \<open>is_academic_paper\<close> and \<open>confidence_score\<close> are read by
  no function modelled here and are left out.
\<close>

record metadata =
  title :: string
  authors :: "string list"
  author :: string
  subject :: string
  abstract :: string
  keywords_list :: "string list"
  doi :: string
  journal :: "string option"
  year :: string
  volume :: string
  issue :: string
  pages :: string
  publisher :: string
  url :: string
  creator :: string
  producer :: string
  creation_date :: string
  modification_date :: string

text \<open>The empty dictionary.\<close>

definition empty_metadata :: metadata where
  "empty_metadata =
     \<lparr>title = [], authors = [], author = [], subject = [], abstract = [], keywords_list = [],
      doi = [], journal = None, year = [], volume = [], issue = [], pages = [],
      publisher = [], url = [], creator = [], producer = [], creation_date = [],
      modification_date = []\<rparr>"

text \<open>\<open>metadata.get('journal', metadata.get('subject', ''))\<close>.\<close>

definition journal_or_subject :: "metadata \<Rightarrow> string" where
  "journal_or_subject md = (case journal md of Some j \<Rightarrow> j | None \<Rightarrow> subject md)"

section \<open>Citation formatter: field extraction\<close>

text \<open>An exception raised inside a function; the callers' \<open>except\<close> clauses catch it.\<close>

datatype exn = ValueError

definition letters_spaces :: rx where
  "letters_spaces = Plus (Atom (In [Rng CHR ''A'' CHR ''Z'', Rng CHR ''a'' CHR ''z'', Cspace]))"

text \<open>
  The filename patterns of \<open>_extract_author\<close>:
  \<^verbatim>\<open>^([A-Za-z\s]+)\s*\(\d{4}\)\<close>, \<^verbatim>\<open>^([A-Za-z\s]+)\s*-\<close> and \<^verbatim>\<open>^([A-Za-z\s]+)\s*_\<close>.
\<close>

definition author_patterns :: "rx list" where
  "author_patterns =
     [Seqs [Bol, Group 1 letters_spaces, Star Space, Lit CHR ''('', Rep 4 Digit, Lit CHR '')''],
      Seqs [Bol, Group 1 letters_spaces, Star Space, Lit CHR ''-''],
      Seqs [Bol, Group 1 letters_spaces, Star Space, Lit CHR ''_'']]"

text \<open>\<open>match.group(g)\<close> of a search result; a group that took no part reads as empty.\<close>

definition group_of :: "(nat \<times> string \<times> mstate) \<Rightarrow> nat \<Rightarrow> string" where
  "group_of r g = (case group (snd (snd r)) g of Some t \<Rightarrow> t | None \<Rightarrow> [])"

text \<open>The loop over the filename patterns: the first pattern found decides.\<close>

fun author_from_filename :: "formatter \<Rightarrow> bool \<Rightarrow> rx list \<Rightarrow> string \<Rightarrow> string" where
  "author_from_filename st short_form [] filename_clean = []"
| "author_from_filename st short_form (p # ps) filename_clean =
     (case re_search no_flags p filename_clean of
        Some m \<Rightarrow>
          (let author = strip (group_of m 1)
           in if short_form \<and> style st \<noteq> IEEE \<and> split_ws author \<noteq> [] then last (split_ws author)
              else author)
      | None \<Rightarrow> author_from_filename st short_form ps filename_clean)"

definition extract_author :: "formatter \<Rightarrow> metadata \<Rightarrow> string \<Rightarrow> bool \<Rightarrow> string" where
  "extract_author st md filename short_form =
     (let authors_list = authors md
      in if authors_list \<noteq> [] then
           (if short_form \<and> style st = IEEE then join '', '' authors_list
            else if short_form \<and> split_ws (hd authors_list) \<noteq> [] then last (split_ws (hd authors_list))
            else if length authors_list = 1 then hd authors_list
            else if length authors_list = 2 then hd authors_list @ '' and '' @ authors_list ! 1
            else hd authors_list @ '' et al.'')
         else
           (let author = strip (author md)
            in if author \<noteq> [] then
                 (if short_form \<and> style st \<noteq> IEEE \<and> split_ws author \<noteq> [] then last (split_ws author)
                  else author)
               else author_from_filename st short_form author_patterns (replace filename ''.pdf'' [])))"

text \<open>The pattern \<^verbatim>\<open>(\d{4})\<close>.\<close>

definition four_digits :: rx where
  "four_digits = Group 1 (Rep 4 Digit)"

text \<open>The loop over the four-digit tokens of the filename.\<close>

fun year_from_tokens :: "formatter \<Rightarrow> string list \<Rightarrow> exn + string option" where
  "year_from_tokens st [] = Inr None"
| "year_from_tokens st (year_str # others) =
     (case py_int year_str of
        None \<Rightarrow> Inl ValueError
      | Some year_int \<Rightarrow>
          if 1900 \<le> year_int \<and> year_int \<le> current_year st then Inr (Some year_str)
          else year_from_tokens st others)"

definition year_from_filename :: "formatter \<Rightarrow> string \<Rightarrow> exn + string option" where
  "year_from_filename st filename = year_from_tokens st (re_findall no_flags four_digits filename)"

definition year_from_creation_date :: "formatter \<Rightarrow> metadata \<Rightarrow> string \<Rightarrow> exn + string option" where
  "year_from_creation_date st md filename =
     (if creation_date md \<noteq> [] then
        (case re_search no_flags four_digits (creation_date md) of
           Some m \<Rightarrow>
             (case py_int (group_of m 1) of
                None \<Rightarrow> Inl ValueError
              | Some year_int \<Rightarrow>
                  if 1900 \<le> year_int \<and> year_int \<le> current_year st then Inr (Some (str_int year_int))
                  else year_from_filename st filename)
         | None \<Rightarrow> year_from_filename st filename)
      else year_from_filename st filename)"

text \<open>
  \<open>_extract_year\<close>: the metadata year, whose \<open>ValueError\<close> is caught on the spot; then
  the creation date; then the filename. The \<open>int\<close> calls of the last two are outside
  any \<open>try\<close>, so an error there leaves the function.
\<close>

definition extract_year :: "formatter \<Rightarrow> metadata \<Rightarrow> string \<Rightarrow> exn + string option" where
  "extract_year st md filename =
     (let y = strip (year md)
      in if y \<noteq> [] then
           (case py_int y of
              Some year_int \<Rightarrow>
                if 1900 \<le> year_int \<and> year_int \<le> current_year st then Inr (Some (str_int year_int))
                else year_from_creation_date st md filename
            | None \<Rightarrow> year_from_creation_date st md filename)
         else year_from_creation_date st md filename)"

text \<open>
  The patterns that \<open>_extract_title\<close> deletes from the filename:
  \<^verbatim>\<open>\(\d{4}\)\<close>, \<^verbatim>\<open>^[A-Za-z\s]+-\<close> and \<^verbatim>\<open>^[A-Za-z\s]+_\<close>.
\<close>

definition paren_year :: rx where
  "paren_year = Seqs [Lit CHR ''('', Rep 4 Digit, Lit CHR '')'']"

definition author_dash :: rx where
  "author_dash = Seqs [Bol, letters_spaces, Lit CHR ''-'']"

definition author_underscore :: rx where
  "author_underscore = Seqs [Bol, letters_spaces, Lit CHR ''_'']"

definition extract_title :: "metadata \<Rightarrow> string \<Rightarrow> string" where
  "extract_title md filename =
     (let t = strip (title md)
      in if t \<noteq> [] then t
         else
           (let t1 = replace filename ''.pdf'' [];
                t2 = re_sub no_flags paren_year [] t1;
                t3 = re_sub no_flags author_dash [] t2;
                t4 = re_sub no_flags author_underscore [] t3;
                t5 = replace (replace t4 ''_'' '' '') ''-'' '' '';
                t6 = join '' '' (split_ws t5)
            in if t6 \<noteq> [] then strip t6 else ''Untitled Document''))"

section \<open>Citation formatter: single citations\<close>

text \<open>The double quote character, and a title put in double quotes unless it starts with one.\<close>

definition dq :: string where
  "dq = [CHR 0x22]"

definition formatted_title :: "string \<Rightarrow> string" where
  "formatted_title t = (if \<not> startswith t dq then dq @ t @ dq else t)"

definition format_apa_citation :: "string \<Rightarrow> string option \<Rightarrow> string \<Rightarrow> string" where
  "format_apa_citation a y t =
     (if a \<noteq> [] \<and> truthy_opt y then a @ '' ('' @ the y @ ''). '' @ t @ ''.''
      else if a \<noteq> [] then a @ '' (n.d.). '' @ t @ ''.''
      else if truthy_opt y then t @ '' ('' @ the y @ '').''
      else t @ '' (n.d.).'')"

definition format_mla_citation :: "string \<Rightarrow> string option \<Rightarrow> string \<Rightarrow> string" where
  "format_mla_citation a y t =
     (if a \<noteq> [] then
        (if truthy_opt y then a @ ''. '' @ formatted_title t @ '' '' @ the y @ ''.''
         else a @ ''. '' @ formatted_title t)
      else
        (if truthy_opt y then formatted_title t @ '' '' @ the y @ ''.''
         else formatted_title t))"

definition format_chicago_citation :: "string \<Rightarrow> string option \<Rightarrow> string \<Rightarrow> string" where
  "format_chicago_citation a y t =
     (if a \<noteq> [] \<and> truthy_opt y then a @ ''. '' @ the y @ ''. '' @ dq @ t @ dq @ ''.''
      else if a \<noteq> [] then a @ ''. n.d. '' @ dq @ t @ dq @ ''.''
      else if truthy_opt y then dq @ t @ dq @ ''. '' @ the y @ ''.''
      else dq @ t @ dq @ ''. n.d.'')"

definition format_ieee_citation :: "string \<Rightarrow> string option \<Rightarrow> string \<Rightarrow> string \<Rightarrow> string" where
  "format_ieee_citation a y t filename =
     (if a \<noteq> [] \<and> truthy_opt y then a @ '', '' @ formatted_title t @ '' '' @ the y @ ''.''
      else if a \<noteq> [] then a @ '', '' @ formatted_title t
      else if truthy_opt y then formatted_title t @ '' '' @ the y @ ''.''
      else formatted_title t)"

text \<open>
  \<open>format_citation\<close>: the source is its filename and its metadata. An exception in the
  extraction makes the function return the filename.
\<close>

definition format_citation :: "formatter \<Rightarrow> string \<Rightarrow> metadata \<Rightarrow> string" where
  "format_citation st filename md =
     (let a = extract_author st md filename False
      in case extract_year st md filename of
           Inl e \<Rightarrow> filename
         | Inr y \<Rightarrow>
             (let t = extract_title md filename
              in case style st of
                   APA \<Rightarrow> format_apa_citation a y t
                 | MLA \<Rightarrow> format_mla_citation a y t
                 | CHICAGO \<Rightarrow> format_chicago_citation a y t
                 | IEEE \<Rightarrow> format_ieee_citation a y t filename))"

section \<open>Citation formatter: validation\<close>

text \<open>
  The validators' patterns. APA:
  \<^verbatim>\<open>^.+\s*\(\d{4}\)\..*\<close>, \<^verbatim>\<open>^.+\s*\(n\.d\.\)\..*\<close>, \<^verbatim>\<open>^\(.+,\s*\d{4}\)\<close>, \<^verbatim>\<open>^\(.+,\s*n\.d\.\)\<close>.
\<close>

definition apa_patterns :: "rx list" where
  "apa_patterns =
     [Seqs [Bol, Plus AnyChar, Star Space, Lit CHR ''('', Rep 4 Digit, Lit CHR '')'', Lit CHR ''.'', Star AnyChar],
      Seqs [Bol, Plus AnyChar, Star Space, Lits ''(n.d.)'', Lit CHR ''.'', Star AnyChar],
      Seqs [Bol, Lit CHR ''('', Plus AnyChar, Lit CHR '','', Star Space, Rep 4 Digit, Lit CHR '')''],
      Seqs [Bol, Lit CHR ''('', Plus AnyChar, Lit CHR '','', Star Space, Lits ''n.d.'', Lit CHR '')'']]"

text \<open>MLA: \<^verbatim>\<open>^.+\.\s*".+"\s*\d{4}\..*\<close> and \<^verbatim>\<open>^\(.+\s+\d+\)\<close>.\<close>

definition mla_patterns :: "rx list" where
  "mla_patterns =
     [Seqs [Bol, Plus AnyChar, Lit CHR ''.'', Star Space, Lit CHR 0x22, Plus AnyChar, Lit CHR 0x22,
            Star Space, Rep 4 Digit, Lit CHR ''.'', Star AnyChar],
      Seqs [Bol, Lit CHR ''('', Plus AnyChar, Plus Space, Plus Digit, Lit CHR '')'']]"

text \<open>Chicago: \<^verbatim>\<open>^.+\.\s*\d{4}\.\s*".+"\..*\<close> and \<^verbatim>\<open>^\(.+\s+\d{4}\)\<close>.\<close>

definition chicago_patterns :: "rx list" where
  "chicago_patterns =
     [Seqs [Bol, Plus AnyChar, Lit CHR ''.'', Star Space, Rep 4 Digit, Lit CHR ''.'', Star Space,
            Lit CHR 0x22, Plus AnyChar, Lit CHR 0x22, Lit CHR ''.'', Star AnyChar],
      Seqs [Bol, Lit CHR ''('', Plus AnyChar, Plus Space, Rep 4 Digit, Lit CHR '')'']]"

text \<open>IEEE: \<^verbatim>\<open>^\[\d+\]\<close> and \<^verbatim>\<open>^.+,\s*".+".*\<close>.\<close>

definition ieee_patterns :: "rx list" where
  "ieee_patterns =
     [Seqs [Bol, Lit CHR ''['', Plus Digit, Lit CHR '']''],
      Seqs [Bol, Plus AnyChar, Lit CHR '','', Star Space, Lit CHR 0x22, Plus AnyChar, Lit CHR 0x22,
            Star AnyChar]]"

text \<open>The validators' loop: some pattern matches at the start of the citation.\<close>

definition matches_any :: "rx list \<Rightarrow> string \<Rightarrow> bool" where
  "matches_any ps citation = list_ex (\<lambda>p. re_match no_flags p citation \<noteq> None) ps"

definition validate_apa_format :: "string \<Rightarrow> bool" where
  "validate_apa_format citation = matches_any apa_patterns citation"

definition validate_mla_format :: "string \<Rightarrow> bool" where
  "validate_mla_format citation = matches_any mla_patterns citation"

definition validate_chicago_format :: "string \<Rightarrow> bool" where
  "validate_chicago_format citation = matches_any chicago_patterns citation"

definition validate_ieee_format :: "string \<Rightarrow> bool" where
  "validate_ieee_format citation = matches_any ieee_patterns citation"

definition validate_citation_format :: "formatter \<Rightarrow> string \<Rightarrow> bool" where
  "validate_citation_format st citation =
     (case style st of
        APA \<Rightarrow> validate_apa_format citation
      | MLA \<Rightarrow> validate_mla_format citation
      | CHICAGO \<Rightarrow> validate_chicago_format citation
      | IEEE \<Rightarrow> validate_ieee_format citation)"

section \<open>Citation formatter: full references\<close>

text \<open>A citation as the reference list reads it: its source filename and its metadata.\<close>

record citation =
  source :: string
  cmeta :: metadata

text \<open>\<open>s.endswith(p)\<close>, and \<open>s.rstrip(',')\<close>.\<close>

definition endswith :: "string \<Rightarrow> string \<Rightarrow> bool" where
  "endswith s p = startswith (rev s) (rev p)"

definition rstrip_commas :: "string \<Rightarrow> string" where
  "rstrip_commas s = rev (dropWhile (\<lambda>c. c = CHR '','') (rev s))"

text \<open>\<open>parts.insert(-1, x)\<close>: before the last element, or into the empty list.\<close>

definition insert_before_last :: "'a \<Rightarrow> 'a list \<Rightarrow> 'a list" where
  "insert_before_last x xs = (if xs = [] then [x] else butlast xs @ [x, last xs])"

definition format_apa_full_reference :: "string \<Rightarrow> string option \<Rightarrow> string \<Rightarrow> metadata \<Rightarrow> string option" where
  "format_apa_full_reference a y t md =
     (if t = [] then None
      else if a = [] \<and> \<not> truthy_opt y then Some (join '' '' [t @ '' (n.d.).''])
      else
        (let parts0 =
               (if a \<noteq> [] \<and> truthy_opt y then [a @ '' ('' @ the y @ '').'']
                else if a \<noteq> [] then [a @ '' (n.d.).'']
                else [t @ '' ('' @ the y @ '').'']);
             parts1 = parts0 @ (if a \<noteq> [] then [t @ ''.''] else []);
             jrnl = journal_or_subject md;
             journal_part =
               ''*'' @ jrnl @ ''*'' @
               (if volume md \<noteq> [] \<and> issue md \<noteq> [] then '', '' @ volume md @ ''('' @ issue md @ '')''
                else if volume md \<noteq> [] then '', '' @ volume md
                else []) @
               (if pages md \<noteq> [] then '', '' @ pages md else []);
             parts2 = parts1 @ (if jrnl \<noteq> [] then [journal_part @ ''.''] else []);
             parts3 = parts2 @ (if publisher md \<noteq> [] \<and> jrnl = [] then [publisher md @ ''.''] else []);
             parts4 = parts3 @
               (if doi md \<noteq> [] then [''https://doi.org/'' @ doi md]
                else if url md \<noteq> [] then [url md]
                else [])
         in Some (join '' '' parts4)))"

definition format_mla_full_reference :: "string \<Rightarrow> string option \<Rightarrow> string \<Rightarrow> metadata \<Rightarrow> string option" where
  "format_mla_full_reference a y t md =
     (if t = [] then None
      else
        (let parts0 = (if a \<noteq> [] then [a @ ''.''] else []) @ [formatted_title t];
             jrnl = journal_or_subject md;
             parts1 = parts0 @
               (if jrnl \<noteq> [] then
                  [''*'' @ jrnl @ ''*,''] @
                  (if volume md \<noteq> [] \<and> issue md \<noteq> [] then [''vol. '' @ volume md @ '', no. '' @ issue md @ '','']
                   else if volume md \<noteq> [] then [''vol. '' @ volume md @ '','']
                   else [])
                else []);
             parts2 = parts1 @ (if truthy_opt y then [the y @ '',''] else []);
             parts3 =
               (if pages md \<noteq> [] then
                  parts2 @ (if jrnl \<noteq> [] then [''pp. '' @ pages md @ ''.''] else [pages md @ ''.''])
                else if parts2 \<noteq> [] \<and> endswith (last parts2) '','' then
                  butlast parts2 @ [rstrip_commas (last parts2) @ ''.'']
                else parts2);
             parts4 =
               (if publisher md \<noteq> [] \<and> jrnl = [] then
                  (if truthy_opt y then insert_before_last (publisher md @ '','') parts3
                   else parts3 @ [publisher md @ ''.''])
                else parts3);
             parts5 = parts4 @
               (if doi md \<noteq> [] then [''DOI: '' @ doi md @ ''.'']
                else if url md \<noteq> [] then [''Web. '' @ url md @ ''.'']
                else [])
         in Some (join '' '' parts5)))"

definition format_chicago_full_reference :: "string \<Rightarrow> string option \<Rightarrow> string \<Rightarrow> metadata \<Rightarrow> string option" where
  "format_chicago_full_reference a y t md =
     (if t = [] then None
      else if a = [] \<and> truthy_opt y then Some (join '' '' [formatted_title t @ '' '' @ the y @ ''.''])
      else if a = [] then Some (join '' '' [formatted_title t @ '' n.d.''])
      else
        (let parts0 = (if truthy_opt y then [a @ ''. '' @ the y @ ''.''] else [a @ ''. n.d.'']);
             parts1 = parts0 @ [formatted_title t];
             jrnl = journal_or_subject md;
             journal_part =
               ''*'' @ jrnl @ ''*'' @
               (if volume md \<noteq> [] \<and> issue md \<noteq> [] then '' '' @ volume md @ '', no. '' @ issue md
                else if volume md \<noteq> [] then '' '' @ volume md
                else []) @
               (if pages md \<noteq> [] then
                  (if truthy_opt y then '' ('' @ the y @ ''): '' @ pages md @ ''.'' else '': '' @ pages md @ ''.'')
                else (if truthy_opt y then '' ('' @ the y @ '').'' else ''.''));
             parts2 = parts1 @ (if jrnl \<noteq> [] then [journal_part] else []);
             parts3 = parts2 @
               (if publisher md \<noteq> [] \<and> jrnl = [] then [publisher md @ ''.'']
                else if jrnl = [] then [''.'']
                else []);
             parts4 = parts3 @
               (if doi md \<noteq> [] then [''doi:'' @ doi md @ ''.'']
                else if url md \<noteq> [] then [''Accessed via '' @ url md @ ''.'']
                else [])
         in Some (join '' '' parts4)))"

definition format_ieee_full_reference :: "string \<Rightarrow> string option \<Rightarrow> string \<Rightarrow> metadata \<Rightarrow> string option" where
  "format_ieee_full_reference a y t md =
     (if t = [] then None
      else
        (let parts0 = (if a \<noteq> [] then [a @ '',''] else []) @ [formatted_title t];
             jrnl = journal_or_subject md;
             journal_part =
               ''*'' @ jrnl @ ''*'' @
               (if volume md \<noteq> [] \<and> issue md \<noteq> [] then '', vol. '' @ volume md @ '', no. '' @ issue md
                else if volume md \<noteq> [] then '', vol. '' @ volume md
                else []) @
               (if pages md \<noteq> [] then '', pp. '' @ pages md else []) @
               (if truthy_opt y then '', '' @ the y @ ''.'' else ''.'');
             parts1 = parts0 @
               (if jrnl \<noteq> [] then [journal_part]
                else if publisher md \<noteq> [] \<and> truthy_opt y then [publisher md @ '', '' @ the y @ ''.'']
                else if truthy_opt y then [the y @ ''.'']
                else if publisher md \<noteq> [] then [publisher md @ ''.'']
                else [''.'']);
             parts2 = parts1 @
               (if doi md \<noteq> [] then [''DOI: '' @ doi md]
                else if url md \<noteq> [] then [''[Online]. Available: '' @ url md]
                else [])
         in Some (join '' '' parts2)))"

text \<open>
  \<open>_format_full_reference\<close>: the fields are extracted from the citation's metadata and
  its source filename; an exception makes the result \<open>None\<close>.
\<close>

definition format_full_reference :: "formatter \<Rightarrow> citation \<Rightarrow> string option" where
  "format_full_reference st c =
     (let md = cmeta c; filename = source c;
          a = extract_author st md filename False
      in case extract_year st md filename of
           Inl e \<Rightarrow> None
         | Inr y \<Rightarrow>
             (let t = extract_title md filename
              in case style st of
                   APA \<Rightarrow> format_apa_full_reference a y t md
                 | MLA \<Rightarrow> format_mla_full_reference a y t md
                 | CHICAGO \<Rightarrow> format_chicago_full_reference a y t md
                 | IEEE \<Rightarrow> format_ieee_full_reference a y t md))"

section \<open>Citation formatter: reference list\<close>

definition nl :: string where
  "nl = [CHR 0x0A]"

text \<open>
  The first loop of \<open>format_reference_list\<close>: one formatted reference for every
  non-empty source not seen before; \<open>seen\<close> holds the sources taken so far.
\<close>

fun collect_references :: "formatter \<Rightarrow> string list \<Rightarrow> string list \<Rightarrow> citation list \<Rightarrow> string list" where
  "collect_references st references seen [] = references"
| "collect_references st references seen (c # cs) =
     (if source c \<noteq> [] \<and> source c \<notin> set seen \<and> truthy_opt (format_full_reference st c)
      then collect_references st (references @ [the (format_full_reference st c)]) (source c # seen) cs
      else collect_references st references seen cs)"

text \<open>
  The IEEE loop: a citation whose source is in the numbering map is written into the
  slot of its number, when the slot exists; any other citation is appended to the
  unmapped references.
\<close>

fun place_references ::
  "formatter \<Rightarrow> string option list \<Rightarrow> string list \<Rightarrow> citation list \<Rightarrow> string option list \<times> string list" where
  "place_references st ordered unmapped [] = (ordered, unmapped)"
| "place_references st ordered unmapped (c # cs) =
     (case citation_map st (source c) of
        Some number \<Rightarrow>
          (if truthy_opt (format_full_reference st c) \<and> 0 \<le> number - 1 \<and> number - 1 < int (length ordered)
           then place_references st (ordered[nat (number - 1) := format_full_reference st c]) unmapped cs
           else place_references st ordered unmapped cs)
      | None \<Rightarrow>
          (if truthy_opt (format_full_reference st c)
           then place_references st ordered (unmapped @ [the (format_full_reference st c)]) cs
           else place_references st ordered unmapped cs))"

text \<open>\<open>[ref for ref in ordered_references if ref is not None]\<close>.\<close>

fun not_none :: "'a option list \<Rightarrow> 'a list" where
  "not_none [] = []"
| "not_none (None # xs) = not_none xs"
| "not_none (Some x # xs) = x # not_none xs"

text \<open>The numbered lines \<open>[i] ref\<close>, each followed by an empty line, from number \<open>i\<close> on.\<close>

fun numbered_lines :: "int \<Rightarrow> string list \<Rightarrow> string" where
  "numbered_lines i [] = []"
| "numbered_lines i (r # rs) = ''['' @ str_int i @ ''] '' @ r @ nl @ nl @ numbered_lines (i + 1) rs"

fun plain_lines :: "string list \<Rightarrow> string" where
  "plain_lines [] = []"
| "plain_lines (r # rs) = r @ nl @ nl @ plain_lines rs"

definition final_references :: "formatter \<Rightarrow> citation list \<Rightarrow> string list" where
  "final_references st citations =
     (let references = collect_references st [] [] citations;
          placed = place_references st (replicate (length references) None) [] citations
      in not_none (fst placed) @ snd placed)"

definition format_reference_list :: "formatter \<Rightarrow> citation list \<Rightarrow> string" where
  "format_reference_list st citations =
     (let references = collect_references st [] [] citations
      in if references = [] then []
         else if style st = IEEE then
           strip (''References'' @ nl @ nl @ numbered_lines 1 (final_references st citations))
         else
           strip ((if style st = MLA then ''Works Cited'' @ nl @ nl
                   else if style st = CHICAGO then ''Bibliography'' @ nl @ nl
                   else ''References'' @ nl @ nl) @ plain_lines (sort references)))"

section \<open>Bibliography parser\<close>

text \<open>A parsed bibliography entry: the dictionary built by \<open>_parse_single_entry\<close>.\<close>

record bib_entry =
  raw_text :: string
  entry_title :: string
  entry_authors :: "string list"
  entry_year :: string
  entry_journal :: string
  entry_volume :: string
  entry_issue :: string
  entry_pages :: string
  entry_doi :: string
  entry_url :: string
  entry_type :: string

text \<open>
  The patterns of \<open>_parse_single_entry\<close>: \<^verbatim>\<open>\((\d{4})\)\<close>, \<^verbatim>\<open>doi:([^\s]+)\<close> (matched with
  \<open>re.IGNORECASE\<close>) and \<^verbatim>\<open>https?://[^\s]+\<close>.
\<close>

definition non_space :: rx where
  "non_space = Atom (NotIn [Cspace])"

definition year_pattern :: rx where
  "year_pattern = Seqs [Lit CHR ''('', Group 1 (Rep 4 Digit), Lit CHR '')'']"

definition doi_pattern :: rx where
  "doi_pattern = Seqs [Lits ''doi:'', Group 1 (Plus non_space)]"

definition url_pattern :: rx where
  "url_pattern = Seqs [Lits ''http'', Opt (Lit CHR ''s''), Lits ''://'', Plus non_space]"

text \<open>
  The patterns shared by the three entry parsers. Title of a journal article:
  \<^verbatim>\<open>\(\d{4}\)\.\s*([^.]+)\.\s*[A-Z]\<close>; authors: \<^verbatim>\<open>^([^(]+)\s*\(\<close>; journal, volume, issue and
  pages: \<^verbatim>\<open>([A-Z][^,]+),\s*(\d+)(?:\((\d+)\))?,\s*([^.]+)\.\<close>; title of a book:
  \<^verbatim>\<open>\(\d{4}\)\.\s*([^.]+)\.\<close>; title of any other entry: \<^verbatim>\<open>\(\d{4}\)[^.]*?\.\s*([^.,]+)\<close>.
\<close>

definition capital :: rx where
  "capital = Atom (In [Rng CHR ''A'' CHR ''Z''])"

definition not_dot :: rx where
  "not_dot = Atom (NotIn [Ch CHR ''.''])"

definition journal_title_pattern :: rx where
  "journal_title_pattern =
     Seqs [Lit CHR ''('', Rep 4 Digit, Lit CHR '')'', Lit CHR ''.'', Star Space,
           Group 1 (Plus not_dot), Lit CHR ''.'', Star Space, capital]"

definition author_pattern :: rx where
  "author_pattern = Seqs [Bol, Group 1 (Plus (Atom (NotIn [Ch CHR ''('']))), Star Space, Lit CHR ''('']"

definition journal_pattern :: rx where
  "journal_pattern =
     Seqs [Group 1 (Seq capital (Plus (Atom (NotIn [Ch CHR '',''])))),
           Lit CHR '','', Star Space, Group 2 (Plus Digit),
           Opt (Seqs [Lit CHR ''('', Group 3 (Plus Digit), Lit CHR '')'']),
           Lit CHR '','', Star Space, Group 4 (Plus not_dot), Lit CHR ''.'']"

definition book_title_pattern :: rx where
  "book_title_pattern =
     Seqs [Lit CHR ''('', Rep 4 Digit, Lit CHR '')'', Lit CHR ''.'', Star Space,
           Group 1 (Plus not_dot), Lit CHR ''.'']"

definition generic_title_pattern :: rx where
  "generic_title_pattern =
     Seqs [Lit CHR ''('', Rep 4 Digit, Lit CHR '')'', LazyStar not_dot, Lit CHR ''.'', Star Space,
           Group 1 (Plus (Atom (NotIn [Ch CHR ''.'', Ch CHR '',''])))]"

text \<open>
  The authors of an entry, the same in the three parsers: the text before the first
  opening parenthesis, split at commas, each piece stripped, empty pieces dropped.
\<close>

definition parse_authors_of_entry :: "string \<Rightarrow> bib_entry \<Rightarrow> bib_entry" where
  "parse_authors_of_entry text e =
     (case re_search no_flags author_pattern text of
        Some m \<Rightarrow>
          e\<lparr>entry_authors :=
               map strip (filter (\<lambda>a. strip a \<noteq> []) (split (strip (group_of m 1)) '',''))\<rparr>
      | None \<Rightarrow> e)"

definition parse_journal_entry :: "string \<Rightarrow> bib_entry \<Rightarrow> bib_entry" where
  "parse_journal_entry text e =
     (let e1 = e\<lparr>entry_type := ''journal''\<rparr>;
          e2 = (case re_search no_flags journal_title_pattern text of
                  Some m \<Rightarrow> e1\<lparr>entry_title := strip (group_of m 1)\<rparr>
                | None \<Rightarrow> e1);
          e3 = parse_authors_of_entry text e2
      in case re_search no_flags journal_pattern text of
           Some m \<Rightarrow>
             e3\<lparr>entry_journal := strip (group_of m 1),
                entry_volume := group_of m 2,
                entry_issue := group_of m 3,
                entry_pages := strip (group_of m 4)\<rparr>
         | None \<Rightarrow> e3)"

definition parse_book_entry :: "string \<Rightarrow> bib_entry \<Rightarrow> bib_entry" where
  "parse_book_entry text e =
     (let e1 = e\<lparr>entry_type := ''book''\<rparr>;
          e2 = (case re_search no_flags book_title_pattern text of
                  Some m \<Rightarrow> e1\<lparr>entry_title := strip (group_of m 1)\<rparr>
                | None \<Rightarrow> e1)
      in parse_authors_of_entry text e2)"

text \<open>\<open>text[:i]\<close> for an index that \<open>find\<close> returned.\<close>

definition slice_to :: "string \<Rightarrow> int \<Rightarrow> string" where
  "slice_to s i = take (nat i) s"

definition parse_generic_entry :: "string \<Rightarrow> bib_entry \<Rightarrow> bib_entry" where
  "parse_generic_entry text e =
     (let e1 = (case re_search no_flags generic_title_pattern text of
                  Some m \<Rightarrow> e\<lparr>entry_title := strip (group_of m 1)\<rparr>
                | None \<Rightarrow> e);
          first_period = find text ''.'';
          potential_title = strip (slice_to text first_period);
          e2 = (if entry_title e1 = [] \<and> 0 < first_period \<and> 10 < length potential_title \<and>
                   \<not> contains potential_title ''(''
                then e1\<lparr>entry_title := potential_title\<rparr> else e1)
      in parse_authors_of_entry text e2)"

text \<open>
  \<open>_parse_single_entry\<close>: year, DOI and URL first, then the parser chosen by the words
  \<open>journal\<close> and \<open>book\<close> in the text; an entry without a title is \<open>None\<close>.
\<close>

definition parse_single_entry :: "string \<Rightarrow> bib_entry option" where
  "parse_single_entry entry_text =
     (let e0 = \<lparr>raw_text = entry_text, entry_title = [], entry_authors = [], entry_year = [],
                entry_journal = [], entry_volume = [], entry_issue = [], entry_pages = [],
                entry_doi = [], entry_url = [], entry_type = ''unknown''\<rparr>;
          e1 = (case re_search no_flags year_pattern entry_text of
                  Some m \<Rightarrow> e0\<lparr>entry_year := group_of m 1\<rparr> | None \<Rightarrow> e0);
          e2 = (case re_search IGNORECASE doi_pattern entry_text of
                  Some m \<Rightarrow> e1\<lparr>entry_doi := group_of m 1\<rparr> | None \<Rightarrow> e1);
          e3 = (case re_search no_flags url_pattern entry_text of
                  Some m \<Rightarrow> e2\<lparr>entry_url := group0 m\<rparr> | None \<Rightarrow> e2);
          e4 = (if contains entry_text ''Journal'' \<or> contains (lower entry_text) ''journal''
                then parse_journal_entry entry_text e3
                else if contains entry_text ''Book'' \<or> contains (lower entry_text) ''book''
                then parse_book_entry entry_text e3
                else parse_generic_entry entry_text e3)
      in if entry_title e4 \<noteq> [] then Some e4 else None)"

section \<open>PDF library: container metadata\<close>

text \<open>
  What \<open>PyPDF2\<close> hands to the library, which the program does not compute itself: the
  document information of the container (absent, or its text entries, an entry that is
  missing being empty) and the extracted text of every page, \<open>None\<close> for a page whose
  \<open>extract_text\<close> raises.
\<close>

record doc_info =
  info_title :: string
  info_author :: string
  info_subject :: string
  info_creator :: string
  info_producer :: string
  info_creation_date :: string
  info_mod_date :: string

record pdf_reader =
  reader_info :: "doc_info option"
  reader_pages :: "string option list"

text \<open>
  \<open>_clean_title\<close>, with its patterns \<^verbatim>\<open>^(Microsoft Word - |Adobe PDF - )\<close>,
  \<^verbatim>\<open>\.(pdf|doc|docx)$\<close> (both matched with \<open>re.IGNORECASE\<close>) and \<^verbatim>\<open>\s+\<close>.
\<close>

definition title_prefix :: rx where
  "title_prefix = Seqs [Bol, Group 1 (Alt (Lits ''Microsoft Word - '') (Lits ''Adobe PDF - ''))]"

definition title_suffix :: rx where
  "title_suffix =
     Seqs [Lit CHR ''.'', Group 1 (Alt (Lits ''pdf'') (Alt (Lits ''doc'') (Lits ''docx''))), Eol]"

definition clean_title :: "string \<Rightarrow> string" where
  "clean_title t =
     (if t = [] then []
      else
        (let t1 = strip t;
             t2 = re_sub IGNORECASE title_prefix [] t1;
             t3 = re_sub IGNORECASE title_suffix [] t2
         in strip (re_sub no_flags (Plus Space) '' '' t3)))"

text \<open>
  The loop over the delimiters of \<open>_parse_authors\<close> and \<open>_extract_keywords\<close>: the first
  delimiter that occurs in the text splits it; the pieces are stripped and the empty
  ones dropped.
\<close>

fun split_at_first_delimiter :: "string list \<Rightarrow> string \<Rightarrow> string list" where
  "split_at_first_delimiter [] s = []"
| "split_at_first_delimiter (d # ds) s =
     (if contains s d then map strip (filter (\<lambda>p. strip p \<noteq> []) (split s d))
      else split_at_first_delimiter ds s)"

text \<open>The patterns \<^verbatim>\<open>\([^)]*\)\<close> and \<^verbatim>\<open><[^>]*>\<close> that \<open>_parse_authors\<close> deletes.\<close>

definition in_parentheses :: rx where
  "in_parentheses = Seqs [Lit CHR ''('', Star (Atom (NotIn [Ch CHR '')''])), Lit CHR '')'']"

definition in_angle_brackets :: rx where
  "in_angle_brackets = Seqs [Lit CHR ''<'', Star (Atom (NotIn [Ch CHR ''>''])), Lit CHR ''>'']"

definition clean_author :: "string \<Rightarrow> string" where
  "clean_author a = strip (re_sub no_flags in_angle_brackets [] (re_sub no_flags in_parentheses [] a))"

definition parse_authors :: "string \<Rightarrow> string list" where
  "parse_authors author_string =
     (if author_string = [] then []
      else
        (let found = split_at_first_delimiter ['';'', '','', '' and '', '' & '', nl] author_string;
             names = (if found = [] then [strip author_string] else found)
         in filter (\<lambda>a. a \<noteq> [] \<and> 2 < length a) (map clean_author names)))"

definition extract_keywords :: "string \<Rightarrow> string list" where
  "extract_keywords subj =
     (if subj = [] then []
      else
        (let found = split_at_first_delimiter ['';'', '','', ''|'', nl] subj;
             kws = (if found = [] then [strip subj] else found)
         in filter (\<lambda>kw. 2 < length kw) kws))"

text \<open>
  \<open>_extract_year_from_date\<close>: the first four digits of the date, kept when they lie
  between 1900 and 2030.
\<close>

definition extract_year_from_date :: "string \<Rightarrow> exn + string" where
  "extract_year_from_date date_string =
     (if date_string = [] then Inr []
      else
        (case re_search no_flags four_digits date_string of
           Some m \<Rightarrow>
             (case py_int (group_of m 1) of
                None \<Rightarrow> Inl ValueError
              | Some y \<Rightarrow> if 1900 \<le> y \<and> y \<le> 2030 then Inr (str_int y) else Inr [])
         | None \<Rightarrow> Inr []))"

section \<open>PDF library: metadata from the text\<close>

text \<open>\<open>any(keyword in s for keyword in keywords)\<close>.\<close>

definition contains_any :: "string \<Rightarrow> string list \<Rightarrow> bool" where
  "contains_any s kws = list_ex (\<lambda>kw. contains s kw) kws"

text \<open>The lines of a text, stripped, without the empty ones.\<close>

definition stripped_lines :: "string \<Rightarrow> string list" where
  "stripped_lines t = map strip (filter (\<lambda>l. strip l \<noteq> []) (split t nl))"

text \<open>
  The patterns of \<open>_extract_authors_from_text\<close>: \<^verbatim>\<open>^.*?(author|by)\s*:?\s*\<close>, deleted
  with \<open>re.IGNORECASE\<close>, and the names
  \<^verbatim>\<open>([A-Z][a-z]+ [A-Z][a-z]+(?:,\s*[A-Z][a-z]+ [A-Z][a-z]+)*)\<close>.
\<close>

definition author_lead :: rx where
  "author_lead =
     Seqs [Bol, LazyStar AnyChar, Group 1 (Alt (Lits ''author'') (Lits ''by'')), Star Space,
           Opt (Lit CHR '':''), Star Space]"

definition first_last :: rx where
  "first_last =
     Seqs [capital, Plus (Atom (In [Rng CHR ''a'' CHR ''z''])), Lit CHR '' '',
           capital, Plus (Atom (In [Rng CHR ''a'' CHR ''z'']))]"

definition name_pattern :: rx where
  "name_pattern = Group 1 (Seq first_last (Star (Seqs [Lit CHR '','', Star Space, first_last])))"

text \<open>The authors that one line contributes.\<close>

definition authors_of_line :: "string \<Rightarrow> string list" where
  "authors_of_line line =
     (if length line < 3 then []
      else
        (let author_text = re_sub IGNORECASE author_lead [] line;
             named = (if contains_any (lower line) [''author'', ''by ''] \<and> author_text \<noteq> []
                      then parse_authors author_text else []);
             matches = filter (\<lambda>m. 5 < length m \<and> length m < 100) (re_findall no_flags name_pattern line)
         in named @ concat (map parse_authors matches)))"

text \<open>The loop that drops repeated and short authors.\<close>

fun unique_authors :: "string list \<Rightarrow> string list \<Rightarrow> string list" where
  "unique_authors acc [] = acc"
| "unique_authors acc (a # as) =
     (if a \<notin> set acc \<and> 2 < length a then unique_authors (acc @ [a]) as else unique_authors acc as)"

definition extract_authors_from_text :: "string \<Rightarrow> string list" where
  "extract_authors_from_text t =
     (if t = [] then []
      else take 10 (unique_authors [] (concat (map authors_of_line (take 20 (stripped_lines t))))))"

text \<open>
  \<open>_extract_year_from_text\<close>: the loops over the first fifty lines and over the
  four-digit tokens of a line. A token between 1900 and 2030 is returned when its line
  has a publication keyword or when it is 1980 or later.
\<close>

definition publication_keywords :: "string list" where
  "publication_keywords =
     [''published'', ''copyright'', [CHR 0xA9], ''journal'', ''conference'', ''proceedings'']"

fun year_of_line_tokens :: "string \<Rightarrow> string list \<Rightarrow> exn + string option" where
  "year_of_line_tokens line [] = Inr None"
| "year_of_line_tokens line (year_str # others) =
     (case py_int year_str of
        None \<Rightarrow> Inl ValueError
      | Some y \<Rightarrow>
          if 1900 \<le> y \<and> y \<le> 2030 \<and>
             (contains_any (lower line) publication_keywords \<or> (1980 \<le> y \<and> y \<le> 2030))
          then Inr (Some year_str)
          else year_of_line_tokens line others)"

fun year_of_lines :: "string list \<Rightarrow> exn + string" where
  "year_of_lines [] = Inr []"
| "year_of_lines (line # lines) =
     (case year_of_line_tokens line (re_findall no_flags four_digits line) of
        Inl e \<Rightarrow> Inl e
      | Inr (Some y) \<Rightarrow> Inr y
      | Inr None \<Rightarrow> year_of_lines lines)"

definition extract_year_from_text :: "string \<Rightarrow> exn + string" where
  "extract_year_from_text t = (if t = [] then Inr [] else year_of_lines (take 50 (split t nl)))"

text \<open>
  The other extractors of the text pass (\<open>_extract_doi_from_text\<close>,
  \<open>_extract_title_from_text\<close>, \<open>_extract_journal_info\<close>, \<open>_extract_abstract\<close>) are
  parameters: each maps the text of the first pages to its fields, and nothing is
  assumed about them. On a text without a line of ten characters, without the digits
  \<open>10.\<close> and without the words \<open>abstract\<close>, \<open>journal\<close>, \<open>vol\<close>, \<open>no\<close> and the like, all four
  return empty fields.
\<close>

record journal_info =
  ji_journal :: string
  ji_volume :: string
  ji_issue :: string
  ji_pages :: string
  ji_publisher :: string

record text_extractors =
  extract_doi_from_text :: "string \<Rightarrow> string"
  extract_title_from_text :: "string \<Rightarrow> string"
  extract_journal_info :: "string \<Rightarrow> journal_info"
  extract_abstract :: "string \<Rightarrow> string"

text \<open>The text of the first three pages, a newline after each page that has text.\<close>

fun first_pages_text :: "string option list \<Rightarrow> string" where
  "first_pages_text [] = []"
| "first_pages_text (None # ps) = first_pages_text ps"
| "first_pages_text (Some t # ps) = (if t \<noteq> [] then t @ nl @ first_pages_text ps else first_pages_text ps)"

text \<open>
  \<open>_extract_text_based_metadata\<close>. The dictionary it returns has the keys \<open>title\<close>,
  \<open>authors\<close>, \<open>abstract\<close>, \<open>doi\<close>, \<open>journal\<close>, \<open>year\<close>, \<open>volume\<close>, \<open>issue\<close>, \<open>pages\<close>,
  \<open>publisher\<close> and \<open>keywords\<close>. An exception leaves the fields set so far.
\<close>

definition text_defaults :: metadata where
  "text_defaults = empty_metadata\<lparr>journal := Some []\<rparr>"

definition extract_text_based_metadata :: "text_extractors \<Rightarrow> pdf_reader \<Rightarrow> metadata" where
  "extract_text_based_metadata ex rd =
     (let t = first_pages_text (take 3 (reader_pages rd))
      in if t = [] then text_defaults
         else
           (let m1 = text_defaults\<lparr>doi := extract_doi_from_text ex t\<rparr>;
                m2 = (if extract_title_from_text ex t \<noteq> [] then m1\<lparr>title := extract_title_from_text ex t\<rparr> else m1);
                m3 = (if extract_authors_from_text t \<noteq> [] then m2\<lparr>authors := extract_authors_from_text t\<rparr> else m2);
                ji = extract_journal_info ex t;
                m4 = m3\<lparr>journal := Some (ji_journal ji), volume := ji_volume ji, issue := ji_issue ji,
                        pages := ji_pages ji, publisher := ji_publisher ji\<rparr>
            in case extract_year_from_text t of
                 Inl e \<Rightarrow> m4
               | Inr y \<Rightarrow> m4\<lparr>year := y, abstract := extract_abstract ex t\<rparr>))"

section \<open>PDF library: merging\<close>

text \<open>
  \<open>len(str(x))\<close> for a list of strings \<open>x\<close>: the length of its \<open>repr\<close>. A string is
  written in single quotes, or in double quotes when it has a single quote and no
  double quote; a backslash, the quote in use, tab, newline and carriage return take
  two characters, any other non-printable code point four.
\<close>

definition printable :: "char \<Rightarrow> bool" where
  "printable c = (let n = code c in 32 \<le> n \<and> n \<noteq> 173 \<and> \<not> (127 \<le> n \<and> n \<le> 160))"

definition repr_quote :: "string \<Rightarrow> char" where
  "repr_quote s = (if CHR 0x27 \<in> set s \<and> CHR 0x22 \<notin> set s then CHR 0x22 else CHR 0x27)"

definition repr_char_len :: "char \<Rightarrow> char \<Rightarrow> nat" where
  "repr_char_len q c =
     (if c = CHR 0x5C \<or> c = q \<or> c = CHR 0x09 \<or> c = CHR 0x0A \<or> c = CHR 0x0D then 2
      else if printable c then 1 else 4)"

definition repr_len :: "string \<Rightarrow> nat" where
  "repr_len s = 2 + sum_list (map (repr_char_len (repr_quote s)) s)"

definition list_repr_len :: "string list \<Rightarrow> nat" where
  "list_repr_len xs = 2 + sum_list (map repr_len xs) + 2 * (length xs - 1)"

text \<open>
  The rule of the first loop of \<open>_merge_metadata\<close> for one key: the value from the text
  replaces the container's when it is non-empty and the container's is empty or has the
  shorter \<open>str\<close>.
\<close>

definition prefer_text :: "string \<Rightarrow> string \<Rightarrow> string" where
  "prefer_text pdf_value text_value =
     (if text_value \<noteq> [] \<and> (pdf_value = [] \<or> length pdf_value < length text_value)
      then text_value else pdf_value)"

definition prefer_text_list :: "string list \<Rightarrow> string list \<Rightarrow> string list" where
  "prefer_text_list pdf_value text_value =
     (if text_value \<noteq> [] \<and> (pdf_value = [] \<or> list_repr_len pdf_value < list_repr_len text_value)
      then text_value else pdf_value)"

text \<open>The rule of the second loop: the text's value fills an empty field.\<close>

definition fill_in :: "'a list \<Rightarrow> 'a list \<Rightarrow> 'a list" where
  "fill_in pdf_value text_value = (if text_value \<noteq> [] \<and> pdf_value = [] then text_value else pdf_value)"

text \<open>The value of the \<open>journal\<close> key, empty when the key is absent.\<close>

definition journal_value :: "metadata \<Rightarrow> string" where
  "journal_value md = (case journal md of Some j \<Rightarrow> j | None \<Rightarrow> [])"

definition merge_metadata :: "metadata \<Rightarrow> metadata \<Rightarrow> metadata" where
  "merge_metadata pdf_metadata text_metadata =
     (let merged = pdf_metadata
            \<lparr>title := prefer_text (title pdf_metadata) (title text_metadata),
             authors := prefer_text_list (authors pdf_metadata) (authors text_metadata),
             doi := prefer_text (doi pdf_metadata) (doi text_metadata),
             journal :=
               (if journal_value text_metadata \<noteq> [] \<and>
                   (journal_value pdf_metadata = [] \<or>
                    length (journal_value pdf_metadata) < length (journal_value text_metadata))
                then Some (journal_value text_metadata) else journal pdf_metadata),
             year := prefer_text (year pdf_metadata) (year text_metadata),
             abstract := prefer_text (abstract pdf_metadata) (abstract text_metadata),
             volume := fill_in (volume pdf_metadata) (volume text_metadata),
             issue := fill_in (issue pdf_metadata) (issue text_metadata),
             pages := fill_in (pages pdf_metadata) (pages text_metadata),
             publisher := fill_in (publisher pdf_metadata) (publisher text_metadata),
             keywords_list := fill_in (keywords_list pdf_metadata) (keywords_list text_metadata)\<rparr>
      in if authors merged \<noteq> [] \<and> author merged = []
         then merged\<lparr>author := join '', '' (authors merged)\<rparr> else merged)"

section \<open>PDF library: \<open>_extract_metadata\<close>\<close>

text \<open>The dictionary \<open>_extract_metadata\<close> starts from.\<close>

definition metadata_defaults :: metadata where
  "metadata_defaults = empty_metadata\<lparr>journal := Some []\<rparr>"

text \<open>The fields read from the container, before the year is looked for.\<close>

definition container_metadata :: "doc_info \<Rightarrow> metadata" where
  "container_metadata i =
     (let raw_title = strip (info_title i);
          raw_author = strip (info_author i);
          raw_subject = strip (info_subject i);
          m1 = metadata_defaults\<lparr>title := clean_title raw_title\<rparr>;
          m2 = (if raw_author \<noteq> [] then m1\<lparr>authors := parse_authors raw_author, author := raw_author\<rparr> else m1);
          m3 = m2\<lparr>subject := raw_subject\<rparr>;
          m4 = (if raw_subject \<noteq> [] then m3\<lparr>keywords_list := extract_keywords raw_subject\<rparr> else m3)
      in m4\<lparr>creator := strip (info_creator i), producer := strip (info_producer i),
            creation_date := info_creation_date i, modification_date := info_mod_date i\<rparr>)"

text \<open>
  \<open>_extract_metadata\<close>: the container pass, the text pass and the merge. An exception
  in the container pass ends the function with the fields set so far.
\<close>

definition extract_metadata :: "text_extractors \<Rightarrow> pdf_reader \<Rightarrow> metadata" where
  "extract_metadata ex rd =
     (case reader_info rd of
        None \<Rightarrow> merge_metadata metadata_defaults (extract_text_based_metadata ex rd)
      | Some i \<Rightarrow>
          (let m = container_metadata i
           in case extract_year_from_date (creation_date m) of
                Inl e \<Rightarrow> m
              | Inr y \<Rightarrow> merge_metadata (m\<lparr>year := y\<rparr>) (extract_text_based_metadata ex rd)))"

section \<open>PDF library: the library and its content\<close>

text \<open>
  A stored document and the library, a dictionary from filenames to documents kept as
  the list of its items in insertion order.
\<close>

record pdf_data =
  d_filename :: string
  full_text :: string
  d_pages :: "(int \<times> string) list"
  d_metadata :: metadata

type_synonym library = "(string \<times> pdf_data) list"

text \<open>\<open>d[k] = v\<close>: the value of an existing key is replaced in place, a new key goes last.\<close>

fun dict_set :: "('k \<times> 'v) list \<Rightarrow> 'k \<Rightarrow> 'v \<Rightarrow> ('k \<times> 'v) list" where
  "dict_set [] k v = [(k, v)]"
| "dict_set ((k', v') # kvs) k v = (if k' = k then (k, v) # kvs else (k', v') # dict_set kvs k v)"

text \<open>An uploaded file: its name and, when \<open>PdfReader\<close> can open it, its reader.\<close>

record pdf_file =
  file_name :: string
  file_reader :: "pdf_reader option"

text \<open>The loop over the pages of \<open>add_pdf\<close>, pages numbered from \<open>n\<close>.\<close>

fun pages_with_text :: "int \<Rightarrow> string option list \<Rightarrow> (int \<times> string) list" where
  "pages_with_text n [] = []"
| "pages_with_text n (None # ps) = pages_with_text (n + 1) ps"
| "pages_with_text n (Some t # ps) =
     (if strip t \<noteq> [] then (n, strip t) # pages_with_text (n + 1) ps else pages_with_text (n + 1) ps)"

fun full_text_of :: "string option list \<Rightarrow> string" where
  "full_text_of [] = []"
| "full_text_of (None # ps) = full_text_of ps"
| "full_text_of (Some t # ps) = (if strip t \<noteq> [] then t @ nl @ full_text_of ps else full_text_of ps)"

definition add_pdf :: "text_extractors \<Rightarrow> library \<Rightarrow> pdf_file \<Rightarrow> bool \<times> library" where
  "add_pdf ex lib f =
     (case file_reader f of
        None \<Rightarrow> (False, lib)
      | Some rd \<Rightarrow>
          (let content_by_page = pages_with_text 1 (reader_pages rd)
           in if content_by_page \<noteq> [] then
                (True, dict_set lib (file_name f)
                   \<lparr>d_filename = file_name f, full_text = full_text_of (reader_pages rd),
                    d_pages = content_by_page, d_metadata = extract_metadata ex rd\<rparr>)
              else (False, lib)))"

definition get_pdf_content :: "library \<Rightarrow> string \<Rightarrow> pdf_data option" where
  "get_pdf_content lib fname = map_of lib fname"

text \<open>\<open>re.split\<close> for a pattern without groups; the accumulator is the current piece reversed.\<close>

fun resplit_from :: "flags \<Rightarrow> rx \<Rightarrow> nat \<Rightarrow> nat \<Rightarrow> string \<Rightarrow> string \<Rightarrow> string list" where
  "resplit_from fl r k p acc [] =
     (if k = 0 \<and> match_at fl r p [] \<noteq> None then [rev acc, []] else [rev acc])"
| "resplit_from fl r (Suc k) p acc (c # s) = resplit_from fl r k (Suc p) acc s"
| "resplit_from fl r 0 p acc (c # s) =
     (case match_at fl r p (c # s) of
        None \<Rightarrow> resplit_from fl r 0 (Suc p) (c # acc) s
      | Some m \<Rightarrow>
          if pos m = p then rev acc # resplit_from fl r 0 (Suc p) [c] s
          else rev acc # resplit_from fl r (pos m - p - 1) (Suc p) [] s)"

definition re_split :: "flags \<Rightarrow> rx \<Rightarrow> string \<Rightarrow> string list" where
  "re_split fl r s = resplit_from fl r 0 0 [] s"

text \<open>The sentence delimiter \<^verbatim>\<open>[.!?]+\<close>.\<close>

definition sentence_end :: rx where
  "sentence_end = Plus (Atom (In [Ch CHR ''.'', Ch CHR ''!'', Ch CHR ''?'']))"

text \<open>
  The loop of \<open>_split_into_chunks\<close>: sentences are gathered into the current chunk until
  the next one would make it longer than \<open>chunk_size\<close>.
\<close>

fun gather_chunks :: "nat \<Rightarrow> string list \<Rightarrow> string \<Rightarrow> string list \<Rightarrow> string list" where
  "gather_chunks chunk_size chunks current_chunk [] =
     (if strip current_chunk \<noteq> [] then chunks @ [strip current_chunk] else chunks)"
| "gather_chunks chunk_size chunks current_chunk (s # ss) =
     (let sentence = strip s
      in if sentence = [] then gather_chunks chunk_size chunks current_chunk ss
         else if chunk_size < length current_chunk + length sentence \<and> current_chunk \<noteq> []
         then gather_chunks chunk_size (chunks @ [strip current_chunk]) sentence ss
         else gather_chunks chunk_size chunks
                (if current_chunk \<noteq> [] then current_chunk @ '' '' @ sentence else sentence) ss)"

definition split_into_chunks :: "string \<Rightarrow> nat \<Rightarrow> string list" where
  "split_into_chunks t chunk_size = gather_chunks chunk_size [] [] (re_split no_flags sentence_end t)"

text \<open>An item of the searchable content.\<close>

record content =
  c_filename :: string
  c_page :: int
  c_text :: string
  c_metadata :: metadata

text \<open>The three loops of \<open>get_all_content\<close>: over the chunks, the pages and the documents.\<close>

fun chunk_items :: "string \<Rightarrow> int \<Rightarrow> metadata \<Rightarrow> string list \<Rightarrow> content list" where
  "chunk_items fname pg md [] = []"
| "chunk_items fname pg md (chunk # chunks) =
     (if 50 < length (strip chunk)
      then \<lparr>c_filename = fname, c_page = pg, c_text = chunk, c_metadata = md\<rparr> # chunk_items fname pg md chunks
      else chunk_items fname pg md chunks)"

fun page_items :: "string \<Rightarrow> metadata \<Rightarrow> (int \<times> string) list \<Rightarrow> content list" where
  "page_items fname md [] = []"
| "page_items fname md (page_data # ps) =
     chunk_items fname (fst page_data) md (split_into_chunks (snd page_data) 500) @ page_items fname md ps"

fun get_all_content :: "library \<Rightarrow> content list" where
  "get_all_content [] = []"
| "get_all_content (item # items) =
     page_items (fst item) (d_metadata (snd item)) (d_pages (snd item)) @ get_all_content items"

section \<open>Citation processor\<close>

text \<open>
  The processor object: its inference client, absent when the configuration is
  incomplete, and the library attribute, which exists once \<open>process_paper\<close> has stored
  it. The client itself is external; \<open>make_client\<close> stands for its constructor.
\<close>

record 'c processor =
  client :: "'c option"
  proc_library :: "library option"

definition init_processor :: "(string \<Rightarrow> string \<Rightarrow> 'c) \<Rightarrow> string \<Rightarrow> string \<Rightarrow> string \<Rightarrow> 'c processor" where
  "init_processor make_client azure_endpoint azure_api_key azure_deployment =
     (if azure_endpoint = [] then \<lparr>client = None, proc_library = None\<rparr>
      else if azure_api_key = [] then \<lparr>client = None, proc_library = None\<rparr>
      else if azure_deployment = [] then \<lparr>client = None, proc_library = None\<rparr>
      else \<lparr>client = Some (make_client azure_endpoint azure_api_key), proc_library = None\<rparr>)"

text \<open>The dictionary returned by \<open>process_paper\<close>; \<open>error\<close> is absent from a regular result.\<close>

record 'a paper_result =
  original_text :: string
  cited_text :: string
  citations :: "'a list"
  references :: string
  claims_identified :: nat
  citations_added :: nat
  sources_used :: nat
  error :: "string option"

text \<open>
  \<open>process_paper\<close>. Without a client the paper is returned as it came. With a client
  the work depends on the inference service; \<open>analyse\<close> stands for that branch, whose
  result is \<open>None\<close> when it raises.
\<close>

definition process_paper ::
  "'c processor \<Rightarrow> ('c \<Rightarrow> string \<Rightarrow> 'a paper_result option) \<Rightarrow> string \<Rightarrow> 'a paper_result option" where
  "process_paper self analyse paper_content =
     (case client self of
        None \<Rightarrow>
          Some \<lparr>original_text = paper_content, cited_text = paper_content, citations = [],
                references = [], claims_identified = 0, citations_added = 0, sources_used = 0,
                error = Some ''OpenAI client not configured''\<rparr>
      | Some c \<Rightarrow> analyse c paper_content)"

text \<open>
  \<open>metadata.update(self._convert_bibliography_to_metadata(bib_entry))\<close>: the keys that
  the conversion produces and the record holds are overwritten. An entry of the parser
  has no publisher, so that key becomes empty; \<open>year\<close> and \<open>authors\<close> are not among the
  keys produced.
\<close>

definition update_from_bibliography :: "metadata \<Rightarrow> bib_entry \<Rightarrow> metadata" where
  "update_from_bibliography md e =
     md\<lparr>title := entry_title e,
        author := (if entry_authors e \<noteq> [] then join '', '' (entry_authors e) else []),
        creation_date := entry_year e,
        subject := entry_journal e,
        journal := Some (entry_journal e),
        volume := entry_volume e,
        issue := entry_issue e,
        pages := entry_pages e,
        publisher := [],
        doi := entry_doi e,
        url := entry_url e\<rparr>"

text \<open>
  The metadata that the authority score reads: the library's, when the attribute
  exists and the file is there, enriched by the bibliography entry that the parser
  finds. The parser is any object with a \<open>find_matching_entry\<close> method; the method is a
  function here, and \<open>Inl\<close> is an exception raised by it.
\<close>

type_synonym bibliography = "string \<Rightarrow> metadata \<Rightarrow> exn + bib_entry option"

definition library_metadata :: "library option \<Rightarrow> string \<Rightarrow> metadata" where
  "library_metadata lib fname =
     (case lib of
        None \<Rightarrow> empty_metadata
      | Some l \<Rightarrow> (case get_pdf_content l fname of Some d \<Rightarrow> d_metadata d | None \<Rightarrow> empty_metadata))"

definition enhanced_metadata :: "library option \<Rightarrow> bibliography option \<Rightarrow> string \<Rightarrow> exn + metadata" where
  "enhanced_metadata lib bibliography_parser fname =
     (let md = library_metadata lib fname
      in case bibliography_parser of
           None \<Rightarrow> Inr md
         | Some find_matching_entry \<Rightarrow>
             (case find_matching_entry fname md of
                Inl e \<Rightarrow> Inl e
              | Inr None \<Rightarrow> Inr md
              | Inr (Some bib_entry) \<Rightarrow> Inr (update_from_bibliography md bib_entry)))"

text \<open>An adjustment that is added when its condition holds.\<close>

definition bonus :: "bool \<Rightarrow> real \<Rightarrow> real" where
  "bonus b x = (if b then x else 0)"

text \<open>\<open>int(metadata['year'])\<close> compared inside \<open>try\<close>: a year that is no number adds nothing.\<close>

definition year_at_least :: "metadata \<Rightarrow> int \<Rightarrow> bool" where
  "year_at_least md n = (year md \<noteq> [] \<and> (case py_int (year md) of Some y \<Rightarrow> n \<le> y | None \<Rightarrow> False))"

definition year_at_most :: "metadata \<Rightarrow> int \<Rightarrow> bool" where
  "year_at_most md n = (year md \<noteq> [] \<and> (case py_int (year md) of Some y \<Rightarrow> y \<le> n | None \<Rightarrow> False))"

text \<open>The adjustments of one claim type, on top of the base score.\<close>

definition claim_type_score :: "string \<Rightarrow> string \<Rightarrow> metadata \<Rightarrow> real" where
  "claim_type_score claim_type fname md =
     (if claim_type = ''FACTUAL'' then
        0.5 + bonus (journal_value md \<noteq> []) 0.2 + bonus (doi md \<noteq> []) 0.1 +
        bonus (publisher md \<noteq> [] \<and> contains (lower (publisher md)) ''university'') 0.1
      else if claim_type = ''STATISTICAL'' then
        0.5 + bonus (journal_value md \<noteq> []) 0.3 +
        bonus (contains_any (lower fname) [''data'', ''study'', ''survey'', ''analysis'']) 0.2 +
        bonus (year_at_least md 2015) 0.1
      else if claim_type = ''THEORETICAL'' then
        0.5 + bonus (journal_value md \<noteq> []) 0.2 +
        (if year_at_most md 2000 then 0.1 else bonus (year_at_least md 2010) 0.05) +
        bonus (contains_any (lower fname) [''theory'', ''framework'', ''model'', ''concept'']) 0.15
      else if claim_type = ''METHODOLOGICAL'' then
        0.5 + bonus (journal_value md \<noteq> []) 0.3 +
        bonus (contains_any (lower fname) [''method'', ''procedure'', ''protocol'', ''technique'']) 0.2 +
        bonus (doi md \<noteq> []) 0.1
      else if claim_type = ''OPINION_INTERPRETATION'' then
        0.5 + bonus (year_at_least md 2018) 0.15 + bonus (journal_value md \<noteq> []) 0.1 +
        bonus (contains_any (lower fname) [''analysis'', ''perspective'', ''discussion'', ''review'']) 0.1
      else 0.5)"

text \<open>
  \<open>_calculate_source_authority\<close>: the score of the source's file for a claim type. Scores
  are exact numbers here; the program adds them as floating-point numbers. An exception
  makes the score 0.5.
\<close>

definition calculate_source_authority ::
  "'c processor \<Rightarrow> content \<Rightarrow> string \<Rightarrow> bibliography option \<Rightarrow> real" where
  "calculate_source_authority self src claim_type bibliography_parser =
     (case enhanced_metadata (proc_library self) bibliography_parser (c_filename src) of
        Inl e \<Rightarrow> 0.5
      | Inr md \<Rightarrow>
          min (claim_type_score claim_type (c_filename src) md +
               bonus (author md \<noteq> []) 0.05 + bonus (title md \<noteq> []) 0.05) 1.0)"

text \<open>The threshold table of \<open>_is_source_appropriate_for_claim_type\<close>, 0.5 for any other type.\<close>

definition threshold :: "string \<Rightarrow> real" where
  "threshold claim_type =
     (if claim_type = ''FACTUAL'' then 0.6
      else if claim_type = ''STATISTICAL'' then 0.65
      else if claim_type = ''THEORETICAL'' then 0.55
      else if claim_type = ''METHODOLOGICAL'' then 0.7
      else if claim_type = ''OPINION_INTERPRETATION'' then 0.4
      else 0.5)"

definition is_source_appropriate_for_claim_type :: "content \<Rightarrow> string \<Rightarrow> real \<Rightarrow> bool" where
  "is_source_appropriate_for_claim_type src claim_type authority_score =
     (threshold claim_type \<le> authority_score)"

section \<open>Years as the specification describes them\<close>

text \<open>A text of four decimal digits.\<close>

definition four_digit_text :: "string \<Rightarrow> bool" where
  "four_digit_text y = (length y = 4 \<and> list_all is_digit y)"

text \<open>A stored year as the library keeps it: four digits whose value is between 1900 and 2030.\<close>

definition valid_year :: "string \<Rightarrow> bool" where
  "valid_year y =
     (four_digit_text y \<and> (case py_int y of Some v \<Rightarrow> 1900 \<le> v \<and> v \<le> 2030 | None \<Rightarrow> False))"

text \<open>
  Extractors that find nothing: what the four parameters of the text pass return on a
  text such as the single letter \<open>x\<close>.
\<close>

definition empty_extractors :: text_extractors where
  "empty_extractors =
     \<lparr>extract_doi_from_text = (\<lambda>t. []), extract_title_from_text = (\<lambda>t. []),
      extract_journal_info =
        (\<lambda>t. \<lparr>ji_journal = [], ji_volume = [], ji_issue = [], ji_pages = [], ji_publisher = []\<rparr>),
      extract_abstract = (\<lambda>t. [])\<rparr>"

text \<open>The invariant of the stored year, for one metadata record and for a whole library.\<close>

definition year_ok :: "metadata \<Rightarrow> bool" where
  "year_ok md = (year md = [] \<or> valid_year (year md))"

definition library_years_ok :: "library \<Rightarrow> bool" where
  "library_years_ok lib = list_all (\<lambda>item. year_ok (d_metadata (snd item))) lib"

text \<open>
  An uploaded file of one page with the text \<open>x\<close>, whose container carries only a
  creation date.
\<close>

definition dated_reader :: "string \<Rightarrow> pdf_reader" where
  "dated_reader date =
     \<lparr>reader_info = Some
        \<lparr>info_title = [], info_author = [], info_subject = [], info_creator = [],
         info_producer = [], info_creation_date = date, info_mod_date = []\<rparr>,
      reader_pages = [Some ''x'']\<rparr>"

definition dated_file :: "string \<Rightarrow> string \<Rightarrow> pdf_file" where
  "dated_file fname date = \<lparr>file_name = fname, file_reader = Some (dated_reader date)\<rparr>"

section \<open>Authors as the specification describes them\<close>

text \<open>The author text that the container gives, stripped; empty when there is none.\<close>

definition container_author :: "pdf_reader \<Rightarrow> string" where
  "container_author rd = (case reader_info rd of None \<Rightarrow> [] | Some i \<Rightarrow> strip (info_author i))"

text \<open>
  Two documents: one whose container names its authors and whose page is the text \<open>x\<close>,
  one without container information whose page names two authors.
\<close>

definition authored_reader :: "string \<Rightarrow> pdf_reader" where
  "authored_reader a =
     \<lparr>reader_info = Some
        \<lparr>info_title = [], info_author = a, info_subject = [], info_creator = [],
         info_producer = [], info_creation_date = [], info_mod_date = []\<rparr>,
      reader_pages = [Some ''x'']\<rparr>"

definition text_only_reader :: "string \<Rightarrow> pdf_reader" where
  "text_only_reader t = \<lparr>reader_info = None, reader_pages = [Some t]\<rparr>"

section \<open>Inputs for the IEEE reference list\<close>

text \<open>A formatter that has cited \<open>a.pdf\<close> and then \<open>b.pdf\<close>, and a citation with empty metadata.\<close>

definition two_cited :: formatter where
  "two_cited = snd (cite_seq (init_formatter IEEE 2026) [(''a.pdf'', None), (''b.pdf'', None)])"

definition cite_of :: "string \<Rightarrow> citation" where
  "cite_of fname = \<lparr>source = fname, cmeta = empty_metadata\<rparr>"

section \<open>Matching a pattern against a text built from pieces\<close>

text \<open>A matcher state without captures.\<close>

definition state_at :: "nat \<Rightarrow> string \<Rightarrow> mstate" where
  "state_at n s = \<lparr>pos = n, rest = s, caps = []\<rparr>"

text \<open>
  A pattern can consume a piece of text: from any position, with any text after the
  piece, one of the ways the pattern matches consumes exactly the piece.
\<close>

definition eats :: "flags \<Rightarrow> rx \<Rightarrow> string \<Rightarrow> bool" where
  "eats fl r u = (\<forall>n v. state_at (n + length u) v \<in> set (rx_match fl r (state_at n (u @ v))))"

text \<open>A text without a line break.\<close>

definition one_line :: "string \<Rightarrow> bool" where
  "one_line s = (CHR 0x0A \<notin> set s)"

section \<open>IEEE numbering\<close>

lemma format_ieee_in_text_state:
  "snd (format_ieee_in_text st f p) =
     (if citation_map st f = None
      then st\<lparr>citation_counter := citation_counter st + 1,
              citation_map := (citation_map st)(f \<mapsto> citation_counter st + 1)\<rparr>
      else st)"
  by (simp add: format_ieee_in_text_def Let_def)

lemma format_ieee_in_text_text:
  "fst (format_ieee_in_text st f p) =
     ieee_text (the (citation_map (snd (format_ieee_in_text st f p)) f)) p"
  by (simp add: format_ieee_in_text_def ieee_text_def Let_def)

lemma cite_seq_length: "length (fst (cite_seq st cs)) = length cs"
  by (induction cs arbitrary: st) (simp_all add: split_beta Let_def)

lemma cite_seq_snoc:
  "cite_seq st (cs @ [c]) =
     (fst (cite_seq st cs) @ [fst (format_ieee_in_text (snd (cite_seq st cs)) (fst c) (snd c))],
      snd (format_ieee_in_text (snd (cite_seq st cs)) (fst c) (snd c)))"
  by (induction cs arbitrary: st) (simp_all add: split_beta Let_def)

lemma takeWhile_snoc_fresh:
  "g \<notin> set fs \<Longrightarrow> takeWhile (\<lambda>h. h \<noteq> g) (fs @ [g]) = fs"
  by (induction fs) auto

lemma takeWhile_snoc_seen:
  "f \<in> set fs \<Longrightarrow> takeWhile (\<lambda>h. h \<noteq> f) (fs @ [g]) = takeWhile (\<lambda>h. h \<noteq> f) fs"
  by (induction fs) auto

text \<open>The numbering state after any sequence of calls from a reset formatter.\<close>

lemma cite_seq_state:
  "citation_counter (snd (cite_seq (reset_state st) cs)) = int (card (set (map fst cs))) \<and>
   (\<forall>f. citation_map (snd (cite_seq (reset_state st) cs)) f =
        (if f \<in> set (map fst cs) then Some (first_cite_number (map fst cs) f) else None))"
proof (induction cs rule: rev_induct)
  case Nil
  show ?case by (simp add: reset_state_def)
next
  case (snoc c cs)
  let ?s = "snd (cite_seq (reset_state st) cs)"
  let ?fs = "map fst cs"
  from snoc have cnt: "citation_counter ?s = int (card (set ?fs))"
    and mp: "\<And>f. citation_map ?s f =
        (if f \<in> set ?fs then Some (first_cite_number ?fs f) else None)"
    by simp_all
  show ?case
  proof (cases "fst c \<in> set ?fs")
    case True
    then have same: "snd (format_ieee_in_text ?s (fst c) (snd c)) = ?s"
      by (simp add: format_ieee_in_text_state mp)
    have ins: "insert (fst c) (fst ` set cs) = fst ` set cs" using True by auto
    have tw: "\<And>f. f \<in> set ?fs \<Longrightarrow>
        first_cite_number (?fs @ [fst c]) f = first_cite_number ?fs f"
      by (simp add: first_cite_number_def takeWhile_snoc_seen)
    show ?thesis
      using True by (auto simp: cite_seq_snoc same cnt mp ins tw)
  next
    case False
    then have upd: "snd (format_ieee_in_text ?s (fst c) (snd c)) =
        ?s\<lparr>citation_counter := citation_counter ?s + 1,
            citation_map := (citation_map ?s)(fst c \<mapsto> citation_counter ?s + 1)\<rparr>"
      by (simp add: format_ieee_in_text_state mp)
    have new: "first_cite_number (?fs @ [fst c]) (fst c) = int (card (set ?fs)) + 1"
      using False by (simp add: first_cite_number_def takeWhile_snoc_fresh)
    have old: "\<And>f. f \<in> set ?fs \<Longrightarrow>
        first_cite_number (?fs @ [fst c]) f = first_cite_number ?fs f"
      by (simp add: first_cite_number_def takeWhile_snoc_seen)
    have card: "card (insert (fst c) (fst ` set cs)) = card (fst ` set cs) + 1"
      using False by simp
    show ?thesis
      using False by (auto simp: cite_seq_snoc upd cnt mp new old card)
  qed
qed

lemma takeWhile_take_seen:
  "f \<in> set (take n fs) \<Longrightarrow> takeWhile (\<lambda>h. h \<noteq> f) (take n fs) = takeWhile (\<lambda>h. h \<noteq> f) fs"
proof (induction fs arbitrary: n)
  case Nil
  then show ?case by simp
next
  case (Cons a fs)
  then show ?case by (cases n) auto
qed

lemma cite_seq_take:
  "snd (cite_seq st (take (Suc i) cs)) =
     (if i < length cs
      then snd (format_ieee_in_text (snd (cite_seq st (take i cs))) (fst (cs ! i)) (snd (cs ! i)))
      else snd (cite_seq st cs))"
  by (simp add: take_Suc_conv_app_nth cite_seq_snoc)

lemma cite_seq_nth:
  "i < length cs \<Longrightarrow>
   fst (cite_seq st cs) ! i =
     fst (format_ieee_in_text (snd (cite_seq st (take i cs))) (fst (cs ! i)) (snd (cs ! i)))"
proof (induction cs arbitrary: st i)
  case Nil
  then show ?case by simp
next
  case (Cons c cs)
  show ?case
  proof (cases i)
    case 0
    then show ?thesis by (simp add: split_beta Let_def)
  next
    case (Suc j)
    with Cons.prems have "j < length cs" by simp
    from Cons.IH [OF this] show ?thesis using Suc by (simp add: split_beta Let_def)
  qed
qed

text \<open>The text returned by the call at position \<open>i\<close> shows the number the filename ends with.\<close>

lemma cite_seq_text:
  assumes "i < length cs"
  shows "fst (cite_seq (reset_state st) cs) ! i =
     ieee_text (first_cite_number (map fst cs) (fst (cs ! i))) (snd (cs ! i))"
proof -
  let ?pre = "take (Suc i) cs"
  have mem: "fst (cs ! i) \<in> set (take (Suc i) (map fst cs))"
    using assms by (simp add: take_Suc_conv_app_nth)
  have "fst (cite_seq (reset_state st) cs) ! i =
      ieee_text (the (citation_map (snd (cite_seq (reset_state st) ?pre)) (fst (cs ! i)))) (snd (cs ! i))"
    using assms by (simp add: cite_seq_nth format_ieee_in_text_text cite_seq_take)
  also have "citation_map (snd (cite_seq (reset_state st) ?pre)) (fst (cs ! i)) =
      Some (first_cite_number (map fst ?pre) (fst (cs ! i)))"
    using mem cite_seq_state [of st ?pre] by (simp add: take_map)
  also have "first_cite_number (map fst ?pre) (fst (cs ! i)) =
      first_cite_number (map fst cs) (fst (cs ! i))"
    using takeWhile_take_seen [OF mem] by (simp add: first_cite_number_def take_map)
  finally show ?thesis by simp
qed

lemma takeWhile_prefix_order:
  "f \<in> set fs \<Longrightarrow>
   length (takeWhile (\<lambda>h. h \<noteq> f) fs) < length (takeWhile (\<lambda>h. h \<noteq> g) fs) \<Longrightarrow>
   set (takeWhile (\<lambda>h. h \<noteq> f) fs) \<subseteq> set (takeWhile (\<lambda>h. h \<noteq> g) fs) \<and>
   f \<in> set (takeWhile (\<lambda>h. h \<noteq> g) fs)"
  by (induction fs) (auto split: if_splits)

lemma first_cite_number_mono:
  assumes "f \<in> set fs"
    and "length (takeWhile (\<lambda>h. h \<noteq> f) fs) < length (takeWhile (\<lambda>h. h \<noteq> g) fs)"
  shows "first_cite_number fs f < first_cite_number fs g"
proof -
  let ?tf = "takeWhile (\<lambda>h. h \<noteq> f) fs" and ?tg = "takeWhile (\<lambda>h. h \<noteq> g) fs"
  have sub: "set ?tf \<subseteq> set ?tg" and fin: "f \<in> set ?tg"
    using takeWhile_prefix_order [OF assms] by simp_all
  have fout: "f \<notin> set ?tf" by (auto dest: set_takeWhileD)
  have "set ?tf \<subset> set ?tg" using sub fin fout by auto
  then have "card (set ?tf) < card (set ?tg)" by (simp add: psubset_card_mono)
  then show ?thesis by (simp add: first_cite_number_def)
qed

text \<open>
  C1. From a reset formatter, after any sequence of calls to the IEEE in-text formatter:
  every cited filename has exactly one number, which is one more than the number of
  distinct filenames cited before its first citation (so the first filename cited has 1
  and a filename first cited earlier has the smaller number); every call, a repeated one
  too, returns the text with that number; uncited filenames have none. Citing A, B, A, C
  gives A 1, B 2, C 3, and after \<open>reset_state\<close> citing B, A gives B 1, A 2 and leaves C
  without a number.
\<close>

theorem ieee_numbering:
  "(\<forall>f. citation_map (snd (cite_seq (reset_state st) cs)) f =
        (if f \<in> fst ` set cs then Some (first_cite_number (map fst cs) f) else None)) \<and>
   (\<forall>i < length cs. fst (cite_seq (reset_state st) cs) ! i =
        ieee_text (first_cite_number (map fst cs) (fst (cs ! i))) (snd (cs ! i))) \<and>
   (\<forall>f \<in> fst ` set cs. \<forall>g.
        length (takeWhile (\<lambda>h. h \<noteq> f) (map fst cs)) < length (takeWhile (\<lambda>h. h \<noteq> g) (map fst cs)) \<longrightarrow>
        first_cite_number (map fst cs) f < first_cite_number (map fst cs) g) \<and>
   (cs \<noteq> [] \<longrightarrow> citation_map (snd (cite_seq (reset_state st) cs)) (fst (hd cs)) = Some 1) \<and>
   (distinct [A, B, C] \<longrightarrow>
      (let s1 = snd (cite_seq (reset_state st) [(A, None), (B, None), (A, None), (C, None)]);
           s2 = snd (cite_seq (reset_state s1) [(B, None), (A, None)])
       in citation_map s1 A = Some 1 \<and> citation_map s1 B = Some 2 \<and> citation_map s1 C = Some 3 \<and>
          citation_map s2 B = Some 1 \<and> citation_map s2 A = Some 2 \<and> citation_map s2 C = None))"
proof (intro conjI)
  show "\<forall>f. citation_map (snd (cite_seq (reset_state st) cs)) f =
        (if f \<in> fst ` set cs then Some (first_cite_number (map fst cs) f) else None)"
    using cite_seq_state [of st cs] by simp
  show "\<forall>i < length cs. fst (cite_seq (reset_state st) cs) ! i =
        ieee_text (first_cite_number (map fst cs) (fst (cs ! i))) (snd (cs ! i))"
    by (simp add: cite_seq_text)
  show "\<forall>f \<in> fst ` set cs. \<forall>g.
        length (takeWhile (\<lambda>h. h \<noteq> f) (map fst cs)) < length (takeWhile (\<lambda>h. h \<noteq> g) (map fst cs)) \<longrightarrow>
        first_cite_number (map fst cs) f < first_cite_number (map fst cs) g"
    using first_cite_number_mono [of _ "map fst cs"] by auto
  show "cs \<noteq> [] \<longrightarrow> citation_map (snd (cite_seq (reset_state st) cs)) (fst (hd cs)) = Some 1"
    using cite_seq_state [of st cs] by (cases cs) (auto simp: first_cite_number_def)
  show "distinct [A, B, C] \<longrightarrow>
      (let s1 = snd (cite_seq (reset_state st) [(A, None), (B, None), (A, None), (C, None)]);
           s2 = snd (cite_seq (reset_state s1) [(B, None), (A, None)])
       in citation_map s1 A = Some 1 \<and> citation_map s1 B = Some 2 \<and> citation_map s1 C = Some 3 \<and>
          citation_map s2 B = Some 1 \<and> citation_map s2 A = Some 2 \<and> citation_map s2 C = None)"
    by (simp add: Let_def format_ieee_in_text_def reset_state_def)
qed

theorem ieee_numbering_witness:
  "citation_map (snd (cite_seq (reset_state (init_formatter IEEE 2024))
       [(''a.pdf'', None), (''b.pdf'', Some ''7''), (''a.pdf'', None), (''c.pdf'', None)])) ''c.pdf'' = Some 3 \<and>
   fst (cite_seq (reset_state (init_formatter IEEE 2024))
       [(''a.pdf'', None), (''b.pdf'', Some ''7''), (''a.pdf'', None), (''c.pdf'', None)]) ! 1 = ''[2, p. 7]'' \<and>
   citation_map (snd (cite_seq (reset_state (snd (cite_seq (reset_state (init_formatter IEEE 2024))
       [(''a.pdf'', None), (''b.pdf'', None), (''a.pdf'', None), (''c.pdf'', None)])))
       [(''b.pdf'', None), (''a.pdf'', None)])) ''a.pdf'' = Some 2"
proof -
  let ?st = "init_formatter IEEE 2024"
  let ?cs = "[(''a.pdf'', None), (''b.pdf'', Some ''7''), (''a.pdf'', None), (''c.pdf'', None)]"
  note th = ieee_numbering [of ?st ?cs "''a.pdf''" "''b.pdf''" "''c.pdf''"]
  have n3: "first_cite_number (map fst ?cs) ''c.pdf'' = 3"
    by (simp add: first_cite_number_def card_insert_if)
  have n2: "first_cite_number (map fst ?cs) ''b.pdf'' = 2"
    by (simp add: first_cite_number_def card_insert_if)
  have d: "distinct [''a.pdf'', ''b.pdf'', ''c.pdf'']" by simp
  have c1: "citation_map (snd (cite_seq (reset_state ?st) ?cs)) ''c.pdf'' = Some 3"
    using th n3 by (simp del: cite_seq.simps)
  have "(1::nat) < length ?cs" by simp
  with th have "fst (cite_seq (reset_state ?st) ?cs) ! 1 =
      ieee_text (first_cite_number (map fst ?cs) (fst (?cs ! 1))) (snd (?cs ! 1))"
    by blast
  then have c2: "fst (cite_seq (reset_state ?st) ?cs) ! 1 = ''[2, p. 7]''"
    using n2 by (simp add: ieee_text_def str_int_def str_nat.simps digit_char_def del: cite_seq.simps)
  have c3: "citation_map (snd (cite_seq (reset_state (snd (cite_seq (reset_state ?st)
       [(''a.pdf'', None), (''b.pdf'', None), (''a.pdf'', None), (''c.pdf'', None)])))
       [(''b.pdf'', None), (''a.pdf'', None)])) ''a.pdf'' = Some 2"
    using th d by (simp add: Let_def del: cite_seq.simps)
  show ?thesis using c1 c2 c3 by blast
qed

section \<open>The filename example\<close>

lemma smith_author: "extract_author st empty_metadata ''Smith_2020_ClimateData.pdf'' False = ''Smith''"
  by code_simp

lemma smith_tokens: "re_findall no_flags four_digits ''Smith_2020_ClimateData.pdf'' = [''2020'']"
  by code_simp

lemma int_2020: "py_int ''2020'' = Some 2020"
  by code_simp

lemma smith_year:
  "2020 \<le> current_year st \<Longrightarrow>
   extract_year st empty_metadata ''Smith_2020_ClimateData.pdf'' = Inr (Some ''2020'')"
  by (simp add: extract_year_def year_from_creation_date_def year_from_filename_def smith_tokens
      int_2020 empty_metadata_def strip_def lstrip_def rstrip_def)

lemma smith_title: "extract_title empty_metadata ''Smith_2020_ClimateData.pdf'' = ''2020 ClimateData''"
  by code_simp

lemma smith_apa:
  "format_apa_full_reference ''Smith'' (Some ''2020'') ''2020 ClimateData'' empty_metadata =
     Some ''Smith (2020). 2020 ClimateData.''"
  by code_simp

text \<open>
  C3, as stated, fails: for the filename \<open>Smith_2020_ClimateData.pdf\<close> with empty metadata
  the extracted title is not \<open>ClimateData\<close>. Only a year in parentheses is removed from
  the filename, so the year stays in the title.
\<close>

theorem smith_title_counterexample:
  "extract_title empty_metadata ''Smith_2020_ClimateData.pdf'' \<noteq> ''ClimateData''"
  by (simp add: smith_title)

text \<open>
  C3, amended. For the filename \<open>Smith_2020_ClimateData.pdf\<close> with empty metadata and a
  formatter whose current year is 2020 or later, the extraction functions return the
  author \<open>Smith\<close>, the year \<open>2020\<close> and the title \<open>2020 ClimateData\<close>, and the APA full
  reference produced from them, also through \<open>_format_full_reference\<close> under the APA
  style, is \<open>Smith (2020). 2020 ClimateData.\<close>
\<close>

theorem smith_example:
  assumes "2020 \<le> current_year st"
  shows "extract_author st empty_metadata ''Smith_2020_ClimateData.pdf'' False = ''Smith'' \<and>
     extract_year st empty_metadata ''Smith_2020_ClimateData.pdf'' = Inr (Some ''2020'') \<and>
     extract_title empty_metadata ''Smith_2020_ClimateData.pdf'' = ''2020 ClimateData'' \<and>
     format_apa_full_reference ''Smith'' (Some ''2020'') ''2020 ClimateData'' empty_metadata =
       Some ''Smith (2020). 2020 ClimateData.'' \<and>
     format_full_reference (st\<lparr>style := APA\<rparr>)
       \<lparr>source = ''Smith_2020_ClimateData.pdf'', cmeta = empty_metadata\<rparr> =
       Some ''Smith (2020). 2020 ClimateData.''"
proof -
  have y: "extract_year (st\<lparr>style := APA\<rparr>) empty_metadata ''Smith_2020_ClimateData.pdf'' =
      Inr (Some ''2020'')"
    using assms by (simp add: smith_year)
  have "format_full_reference (st\<lparr>style := APA\<rparr>)
       \<lparr>source = ''Smith_2020_ClimateData.pdf'', cmeta = empty_metadata\<rparr> =
       Some ''Smith (2020). 2020 ClimateData.''"
    by (simp add: format_full_reference_def smith_author y smith_title smith_apa)
  then show ?thesis
    using assms by (simp add: smith_author smith_year smith_title smith_apa)
qed

theorem smith_example_witness:
  "extract_year (init_formatter APA 2026) empty_metadata ''Smith_2020_ClimateData.pdf'' =
     Inr (Some ''2020'') \<and>
   format_full_reference (init_formatter APA 2026)
     \<lparr>source = ''Smith_2020_ClimateData.pdf'', cmeta = empty_metadata\<rparr> =
     Some ''Smith (2020). 2020 ClimateData.''"
proof -
  have h: "2020 \<le> current_year (init_formatter APA 2026)"
    by (simp add: init_formatter_def)
  have s: "(init_formatter APA 2026)\<lparr>style := APA\<rparr> = init_formatter APA 2026"
    by (simp add: init_formatter_def)
  show ?thesis using smith_example [OF h] by (simp add: s)
qed

section \<open>The bibliography example\<close>

lemma jones_entry:
  "parse_single_entry ''Jones, A. (2019). Deep Learning Basics. Journal of AI, 5(2), 100-110.'' =
     Some \<lparr>raw_text = ''Jones, A. (2019). Deep Learning Basics. Journal of AI, 5(2), 100-110.'',
       entry_title = ''Deep Learning Basics'', entry_authors = [''Jones'', ''A.''],
       entry_year = ''2019'',
       entry_journal = ''A. (2019). Deep Learning Basics. Journal of AI'',
       entry_volume = ''5'', entry_issue = ''2'', entry_pages = ''100-110'',
       entry_doi = [], entry_url = [], entry_type = ''journal''\<rparr>"
  by code_simp

text \<open>
  C4, as stated, fails: the authors of the parsed example entry are not the single
  author \<open>Jones, A.\<close>, because the text before the year is split at every comma.
\<close>

theorem jones_authors_counterexample:
  "map_option entry_authors
     (parse_single_entry ''Jones, A. (2019). Deep Learning Basics. Journal of AI, 5(2), 100-110.'') \<noteq>
   Some [''Jones, A.'']"
  by (simp add: jones_entry)

text \<open>
  C4, amended. Parsing the entry text
  \<open>Jones, A. (2019). Deep Learning Basics. Journal of AI, 5(2), 100-110.\<close> produces an
  entry with the authors \<open>Jones\<close> and \<open>A.\<close>, the year \<open>2019\<close>, the title
  \<open>Deep Learning Basics\<close>, the volume \<open>5\<close>, the issue \<open>2\<close>, the pages \<open>100-110\<close> and the
  type \<open>journal\<close>.
\<close>

theorem jones_example:
  "map_option
     (\<lambda>e. (entry_authors e, entry_year e, entry_title e, entry_volume e, entry_issue e,
           entry_pages e, entry_type e))
     (parse_single_entry ''Jones, A. (2019). Deep Learning Basics. Journal of AI, 5(2), 100-110.'') =
   Some ([''Jones'', ''A.''], ''2019'', ''Deep Learning Basics'', ''5'', ''2'', ''100-110'', ''journal'')"
  by (simp add: jones_entry)

section \<open>The processor without a client\<close>

text \<open>
  C9. For every paper text, a processor whose client is absent returns a result, not a
  failure: the original and the cited text both are the paper text unchanged, the list
  of citations is empty and the error marker is set. The client is absent whenever the
  endpoint, the key or the deployment name of the configuration is empty.
\<close>

theorem process_paper_unconfigured:
  "process_paper \<lparr>client = None, proc_library = lib\<rparr> analyse paper_content =
     Some \<lparr>original_text = paper_content, cited_text = paper_content, citations = [],
           references = [], claims_identified = 0, citations_added = 0, sources_used = 0,
           error = Some ''OpenAI client not configured''\<rparr> \<and>
   client (init_processor make_client [] azure_api_key azure_deployment) = None \<and>
   client (init_processor make_client azure_endpoint [] azure_deployment) = None \<and>
   client (init_processor make_client azure_endpoint azure_api_key []) = None"
  by (simp add: process_paper_def init_processor_def)

section \<open>Bounds of the authority score\<close>

lemma bonus_bounds: "0 \<le> x \<Longrightarrow> 0 \<le> bonus b x"
  by (simp add: bonus_def)

lemma claim_type_score_lower: "0.5 \<le> claim_type_score claim_type fname md"
  by (simp add: claim_type_score_def bonus_def)

text \<open>
  C10. For every source, claim type and bibliography parser, the authority score lies
  between 0.5 and 1.0, it is 0.5 when the parser raises, and it meets the threshold of
  the claim type \<open>OPINION_INTERPRETATION\<close>.
\<close>

theorem authority_bounds:
  "0.5 \<le> calculate_source_authority self src claim_type bibliography_parser \<and>
   calculate_source_authority self src claim_type bibliography_parser \<le> 1.0 \<and>
   calculate_source_authority self src claim_type (Some (\<lambda>fname md. Inl ValueError)) = 0.5 \<and>
   is_source_appropriate_for_claim_type src ''OPINION_INTERPRETATION''
     (calculate_source_authority self src claim_type bibliography_parser)"
proof -
  let ?a = "calculate_source_authority self src claim_type bibliography_parser"
  have lower: "0.5 \<le> ?a"
  proof (cases "enhanced_metadata (proc_library self) bibliography_parser (c_filename src)")
    case (Inl e)
    then show ?thesis by (simp add: calculate_source_authority_def)
  next
    case (Inr md)
    have "0.5 \<le> claim_type_score claim_type (c_filename src) md"
      by (rule claim_type_score_lower)
    moreover have "0 \<le> bonus (author md \<noteq> []) 0.05" "0 \<le> bonus (title md \<noteq> []) 0.05"
      by (simp_all add: bonus_def)
    ultimately show ?thesis using Inr by (simp add: calculate_source_authority_def)
  qed
  have upper: "?a \<le> 1.0"
    by (cases "enhanced_metadata (proc_library self) bibliography_parser (c_filename src)")
       (simp_all add: calculate_source_authority_def)
  have raised: "calculate_source_authority self src claim_type (Some (\<lambda>fname md. Inl ValueError)) = 0.5"
    by (simp add: calculate_source_authority_def enhanced_metadata_def)
  have "threshold ''OPINION_INTERPRETATION'' = 0.4"
    by (simp add: threshold_def)
  then have ok: "is_source_appropriate_for_claim_type src ''OPINION_INTERPRETATION'' ?a"
    using lower by (simp add: is_source_appropriate_for_claim_type_def)
  show ?thesis using lower upper raised ok by blast
qed

section \<open>The chunks of the searchable content\<close>

lemma lstrip_fixed: "s = [] \<or> \<not> is_space (hd s) \<Longrightarrow> lstrip s = s"
  by (auto simp: lstrip_def dropWhile_eq_self_iff)

lemma rstrip_fixed: "s = [] \<or> \<not> is_space (last s) \<Longrightarrow> rstrip s = s"
proof -
  assume a: "s = [] \<or> \<not> is_space (last s)"
  have "dropWhile is_space (rev s) = rev s"
    using a by (auto simp: dropWhile_eq_self_iff hd_rev)
  then show ?thesis by (simp add: rstrip_def)
qed

lemma rstrip_last: "rstrip s \<noteq> [] \<Longrightarrow> \<not> is_space (last (rstrip s))"
proof -
  assume a: "rstrip s \<noteq> []"
  then have ne: "dropWhile is_space (rev s) \<noteq> []" by (simp add: rstrip_def)
  have "last (rstrip s) = hd (dropWhile is_space (rev s))"
    using ne by (simp add: rstrip_def last_rev)
  then show ?thesis using hd_dropWhile [OF ne] by simp
qed

lemma rstrip_hd: "rstrip s \<noteq> [] \<Longrightarrow> hd (rstrip s) = hd s"
proof -
  assume a: "rstrip s \<noteq> []"
  obtain xs where xs: "rev s = takeWhile is_space (rev s) @ dropWhile is_space (rev s)"
    by simp
  have "s = rev (dropWhile is_space (rev s)) @ rev (takeWhile is_space (rev s))"
    by (metis rev_append rev_rev_ident takeWhile_dropWhile_id)
  then have "s = rstrip s @ rev (takeWhile is_space (rev s))" by (simp add: rstrip_def)
  then show ?thesis using a by (metis hd_append2)
qed

lemma strip_idem: "strip (strip s) = strip s"
proof (cases "strip s = []")
  case True
  have "strip [] = []" by (simp add: strip_def lstrip_def rstrip_def)
  with True show ?thesis by simp
next
  case False
  let ?u = "lstrip s"
  from False have ne: "rstrip ?u \<noteq> []" by (simp add: strip_def)
  then have une: "?u \<noteq> []" by (auto simp: rstrip_def)
  have "\<not> is_space (hd ?u)" using une hd_dropWhile [of is_space s] by (simp add: lstrip_def)
  then have "\<not> is_space (hd (rstrip ?u))" using rstrip_hd [OF ne] by simp
  then have l: "lstrip (rstrip ?u) = rstrip ?u" by (simp add: lstrip_fixed)
  have r: "rstrip (rstrip ?u) = rstrip ?u" using rstrip_last [OF ne] by (simp add: rstrip_fixed)
  show ?thesis by (simp add: strip_def l r)
qed

lemma gather_chunks_stripped:
  "(\<And>c. c \<in> set chunks \<Longrightarrow> strip c = c) \<Longrightarrow> c \<in> set (gather_chunks n chunks cur ss) \<Longrightarrow> strip c = c"
proof (induction ss arbitrary: chunks cur)
  case Nil
  then show ?case by (auto simp: strip_idem split: if_splits)
next
  case (Cons s ss)
  show ?case
  proof (cases "strip s = []")
    case True
    with Cons.prems(2) have "c \<in> set (gather_chunks n chunks cur ss)" by simp
    from Cons.IH [OF Cons.prems(1) this] show ?thesis .
  next
    case False
    show ?thesis
    proof (cases "n < length cur + length (strip s) \<and> cur \<noteq> []")
      case True
      with False Cons.prems(2) have m: "c \<in> set (gather_chunks n (chunks @ [strip cur]) (strip s) ss)"
        by (simp add: Let_def)
      have "\<And>d. d \<in> set (chunks @ [strip cur]) \<Longrightarrow> strip d = d"
        using Cons.prems(1) by (auto simp: strip_idem)
      from Cons.IH [OF this m] show ?thesis .
    next
      case F2: False
      with False Cons.prems(2) have m: "c \<in> set (gather_chunks n chunks
          (if cur \<noteq> [] then cur @ '' '' @ strip s else strip s) ss)"
        by (simp add: Let_def)
      from Cons.IH [OF Cons.prems(1) m] show ?thesis .
    qed
  qed
qed

lemma split_into_chunks_stripped: "c \<in> set (split_into_chunks t n) \<Longrightarrow> strip c = c"
  unfolding split_into_chunks_def by (rule gather_chunks_stripped [of "[]"]) simp_all

lemma chunk_items_filter:
  "(\<And>c. c \<in> set chunks \<Longrightarrow> strip c = c) \<Longrightarrow>
   chunk_items fname pg md chunks =
     map (\<lambda>ch. \<lparr>c_filename = fname, c_page = pg, c_text = ch, c_metadata = md\<rparr>)
       (filter (\<lambda>ch. 50 < length ch) chunks)"
  by (induction chunks) simp_all

lemma page_items_filter:
  "page_items fname md ps =
     concat (map (\<lambda>page_data.
        map (\<lambda>ch. \<lparr>c_filename = fname, c_page = fst page_data, c_text = ch, c_metadata = md\<rparr>)
          (filter (\<lambda>ch. 50 < length ch) (split_into_chunks (snd page_data) 500))) ps)"
  by (induction ps) (simp_all add: chunk_items_filter split_into_chunks_stripped)

lemma get_all_content_eq:
  "get_all_content lib =
     concat (map (\<lambda>item.
        concat (map (\<lambda>page_data.
          map (\<lambda>ch. \<lparr>c_filename = fst item, c_page = fst page_data, c_text = ch,
                     c_metadata = d_metadata (snd item)\<rparr>)
            (filter (\<lambda>ch. 50 < length ch) (split_into_chunks (snd page_data) 500)))
          (d_pages (snd item)))) lib)"
  by (induction lib) (simp_all add: page_items_filter)

text \<open>
  C8, as stated, fails: a page whose text is fifty letters gives one chunk of exactly
  fifty characters, and the content list of a library holding that page is empty.
\<close>

theorem chunk_of_fifty_counterexample:
  "split_into_chunks (replicate 50 CHR ''a'') 500 = [replicate 50 CHR ''a''] \<and>
   length (replicate 50 CHR ''a'') = 50 \<and>
   get_all_content
     [(''a.pdf'', \<lparr>d_filename = ''a.pdf'', full_text = replicate 50 CHR ''a'' @ nl,
         d_pages = [(1, replicate 50 CHR ''a'')], d_metadata = empty_metadata\<rparr>)] = []"
  by code_simp

text \<open>
  C8, amended. For every library, the content list returned by \<open>get_all_content\<close>
  contains, document by document and page by page in order, exactly those chunks
  produced by chunking the page text whose text is longer than 50 characters, each
  with its filename, page number and metadata; so every item's text is longer than 50
  characters, and a chunk of 50 characters or fewer is not in the list.
\<close>

theorem get_all_content_chunks:
  "get_all_content lib =
     concat (map (\<lambda>item.
        concat (map (\<lambda>page_data.
          map (\<lambda>ch. \<lparr>c_filename = fst item, c_page = fst page_data, c_text = ch,
                     c_metadata = d_metadata (snd item)\<rparr>)
            (filter (\<lambda>ch. 50 < length ch) (split_into_chunks (snd page_data) 500)))
          (d_pages (snd item)))) lib) \<and>
   list_all (\<lambda>c. 50 < length (c_text c)) (get_all_content lib)"
proof
  show "get_all_content lib =
     concat (map (\<lambda>item.
        concat (map (\<lambda>page_data.
          map (\<lambda>ch. \<lparr>c_filename = fst item, c_page = fst page_data, c_text = ch,
                     c_metadata = d_metadata (snd item)\<rparr>)
            (filter (\<lambda>ch. 50 < length ch) (split_into_chunks (snd page_data) 500)))
          (d_pages (snd item)))) lib)"
    by (rule get_all_content_eq)
  show "list_all (\<lambda>c. 50 < length (c_text c)) (get_all_content lib)"
    by (subst get_all_content_eq) (auto simp: list_all_iff)
qed

section \<open>The stored year\<close>

lemma code_simps [simp]:
  "code CHR ''0'' = 48" "code CHR ''9'' = 57" "code CHR ''-'' = 45" "code CHR ''+'' = 43" "code CHR ''_'' = 95"
  by (simp_all add: code_def)

lemma digit_not_space: "is_digit c \<Longrightarrow> \<not> is_int_space c"
  by (auto simp: is_digit_def in_range_def is_int_space_def Let_def)

lemma digit_not_sign: "is_digit c \<Longrightarrow> c \<noteq> CHR ''-'' \<and> c \<noteq> CHR ''+'' \<and> c \<noteq> CHR ''_''"
  by (auto simp: is_digit_def in_range_def)

lemma py_int_four_digits:
  assumes "is_digit a" "is_digit b" "is_digit c" "is_digit d"
  shows "py_int [a, b, c, d] =
     Some (1000 * digit_val a + 100 * digit_val b + 10 * digit_val c + digit_val d)"
  using assms digit_not_space [of a] digit_not_space [of d] digit_not_sign [of a]
  by (simp add: py_int_def)

lemma match_four_digits:
  "rx_match no_flags four_digits st =
     (case rest st of
        a # b # c # d # r \<Rightarrow>
          if is_digit a \<and> is_digit b \<and> is_digit c \<and> is_digit d
          then [\<lparr>pos = pos st + 4, rest = r, caps = (1, [a, b, c, d]) # caps st\<rparr>] else []
      | _ \<Rightarrow> [])"
  by (cases st)
     (auto simp: four_digits_def Digit_def eval_nat_numeral close_group_def no_flags_def
       split: list.splits)

lemma match_at_four_digits:
  "match_at no_flags four_digits p s = Some m \<Longrightarrow>
   \<exists>a b c d. group m 1 = Some [a, b, c, d] \<and> is_digit a \<and> is_digit b \<and> is_digit c \<and> is_digit d"
  by (auto simp: match_at_def match_four_digits group_def split: list.splits if_splits)

lemma four_digit_textI: "is_digit a \<Longrightarrow> is_digit b \<Longrightarrow> is_digit c \<Longrightarrow> is_digit d \<Longrightarrow> four_digit_text [a, b, c, d]"
  by (simp add: four_digit_text_def)

lemma findall_from_groups:
  "(\<And>p s m. match_at fl r p s = Some m \<Longrightarrow> P (case group m 1 of None \<Rightarrow> [] | Some g \<Rightarrow> g)) \<Longrightarrow>
   x \<in> set (findall_from fl r k p s) \<Longrightarrow> P x"
proof (induction fl r k p s rule: findall_from.induct)
  case (1 fl r k p)
  show ?case
  proof (cases "match_at fl r p []")
    case None
    with "1.prems"(2) show ?thesis by (cases "k = 0") simp_all
  next
    case (Some m)
    with "1.prems"(2) have "x = (case group m 1 of None \<Rightarrow> [] | Some g \<Rightarrow> g)"
      by (cases "k = 0") simp_all
    then show ?thesis using "1.prems"(1) [OF Some] by simp
  qed
next
  case (2 fl r k p c s)
  from "2.prems"(2) have "x \<in> set (findall_from fl r k (Suc p) s)" by simp
  from "2.IH" [OF "2.prems"(1) this] show ?case .
next
  case (3 fl r p c s)
  show ?case
  proof (cases "match_at fl r p (c # s)")
    case None
    with "3.prems"(2) have "x \<in> set (findall_from fl r 0 (Suc p) s)" by simp
    from "3.IH"(1) [OF None "3.prems"(1) this] show ?thesis .
  next
    case (Some m)
    show ?thesis
    proof (cases "pos m = p")
      case True
      with "3.prems"(2) Some have "x = (case group m 1 of None \<Rightarrow> [] | Some g \<Rightarrow> g) \<or>
          x \<in> set (findall_from fl r 0 (Suc p) s)" by simp
      then show ?thesis
      proof
        assume "x = (case group m 1 of None \<Rightarrow> [] | Some g \<Rightarrow> g)"
        then show ?thesis using "3.prems"(1) [OF Some] by simp
      next
        assume "x \<in> set (findall_from fl r 0 (Suc p) s)"
        from "3.IH"(2) [OF Some True "3.prems"(1) this] show ?thesis .
      qed
    next
      case False
      with "3.prems"(2) Some have "x = (case group m 1 of None \<Rightarrow> [] | Some g \<Rightarrow> g) \<or>
          x \<in> set (findall_from fl r (pos m - p - 1) (Suc p) s)" by simp
      then show ?thesis
      proof
        assume "x = (case group m 1 of None \<Rightarrow> [] | Some g \<Rightarrow> g)"
        then show ?thesis using "3.prems"(1) [OF Some] by simp
      next
        assume "x \<in> set (findall_from fl r (pos m - p - 1) (Suc p) s)"
        from "3.IH"(3) [OF Some False "3.prems"(1) this] show ?thesis .
      qed
    qed
  qed
qed

lemma findall_four_digits:
  "x \<in> set (re_findall no_flags four_digits s) \<Longrightarrow> four_digit_text x"
  unfolding re_findall_def
proof (rule findall_from_groups [where P = four_digit_text])
  fix p s m assume "match_at no_flags four_digits p s = Some m"
  from match_at_four_digits [OF this]
  show "four_digit_text (case group m 1 of None \<Rightarrow> [] | Some g \<Rightarrow> g)"
    by (auto simp: four_digit_text_def)
qed

lemma search_from_match:
  "search_from fl r p s = Some (q, t, m) \<Longrightarrow> match_at fl r q t = Some m"
  by (induction s arbitrary: p) (auto split: option.splits)

lemma search_four_digits:
  assumes "re_search no_flags four_digits s = Some r"
  shows "\<exists>a b c d. group_of r 1 = [a, b, c, d] \<and> is_digit a \<and> is_digit b \<and> is_digit c \<and> is_digit d"
proof -
  obtain q t m where r: "r = (q, t, m)" by (cases r) auto
  with assms have "match_at no_flags four_digits q t = Some m"
    by (simp add: re_search_def search_from_match)
  from match_at_four_digits [OF this] show ?thesis
    using r by (auto simp: group_of_def)
qed

lemma digit_char_props:
  assumes "d < 10"
  shows "is_digit (digit_char d)" and "digit_val (digit_char d) = int d"
proof -
  from assms have "d = 0 \<or> d = 1 \<or> d = 2 \<or> d = 3 \<or> d = 4 \<or> d = 5 \<or> d = 6 \<or> d = 7 \<or> d = 8 \<or> d = 9"
    by arith
  then show "is_digit (digit_char d)" and "digit_val (digit_char d) = int d"
    by (auto simp: digit_char_def is_digit_def in_range_def digit_val_def code_def)
qed

lemma str_nat_four:
  assumes "1000 \<le> n" "n \<le> 9999"
  shows "str_nat n =
     [digit_char (n div 1000), digit_char (n div 100 mod 10), digit_char (n div 10 mod 10),
      digit_char (n mod 10)]"
proof -
  have n1: "\<not> n < 10" "\<not> n div 10 < 10" "\<not> n div 100 < 10" "n div 1000 < 10"
    using assms by auto
  have e: "n div 10 div 10 = n div 100" "n div 100 div 10 = n div 1000"
    by (simp_all add: div_mult2_eq [symmetric])
  have a: "str_nat n = str_nat (n div 10) @ [digit_char (n mod 10)]"
    using str_nat.simps [of n] n1 by simp
  have b: "str_nat (n div 10) = str_nat (n div 100) @ [digit_char (n div 10 mod 10)]"
    using str_nat.simps [of "n div 10"] n1 e by simp
  have c: "str_nat (n div 100) = str_nat (n div 1000) @ [digit_char (n div 100 mod 10)]"
    using str_nat.simps [of "n div 100"] n1 e by simp
  have d: "str_nat (n div 1000) = [digit_char (n div 1000)]"
    using str_nat.simps [of "n div 1000"] n1 by simp
  show ?thesis by (simp add: a b c d)
qed

lemma decimal_four:
  "1000 * ((n::nat) div 1000) + 100 * (n div 100 mod 10) + 10 * (n div 10 mod 10) + n mod 10 = n"
proof -
  have a: "n = 10 * (n div 10) + n mod 10" by simp
  have b: "n div 10 = 10 * (n div 100) + n div 10 mod 10"
    using div_mult_mod_eq [of "n div 10" 10] by (simp add: div_mult2_eq [symmetric] mult.commute)
  have c: "n div 100 = 10 * (n div 1000) + n div 100 mod 10"
    using div_mult_mod_eq [of "n div 100" 10] by (simp add: div_mult2_eq [symmetric] mult.commute)
  show ?thesis using a b c by linarith
qed

lemma str_int_year:
  assumes "1000 \<le> y" "y \<le> 9999"
  shows "four_digit_text (str_int y)" and "py_int (str_int y) = Some y"
proof -
  let ?n = "nat y"
  have n: "1000 \<le> ?n" "?n \<le> 9999" using assms by auto
  have s: "str_int y =
     [digit_char (?n div 1000), digit_char (?n div 100 mod 10), digit_char (?n div 10 mod 10),
      digit_char (?n mod 10)]"
    using assms str_nat_four [OF n] by (simp add: str_int_def)
  have lt: "?n div 1000 < 10" "?n div 100 mod 10 < 10" "?n div 10 mod 10 < 10" "?n mod 10 < 10"
    using n by auto
  show "four_digit_text (str_int y)"
    using lt by (simp add: s four_digit_text_def digit_char_props)
  have "py_int (str_int y) =
      Some (1000 * int (?n div 1000) + 100 * int (?n div 100 mod 10) + 10 * int (?n div 10 mod 10) +
            int (?n mod 10))"
    using lt by (simp only: s py_int_four_digits digit_char_props)
  also have "1000 * int (?n div 1000) + 100 * int (?n div 100 mod 10) + 10 * int (?n div 10 mod 10) +
            int (?n mod 10) =
      int (1000 * (?n div 1000) + 100 * (?n div 100 mod 10) + 10 * (?n div 10 mod 10) + ?n mod 10)"
    by (simp only: of_nat_add of_nat_mult of_nat_numeral)
  also have "\<dots> = int ?n" by (simp only: decimal_four)
  finally show "py_int (str_int y) = Some y" using assms by simp
qed

lemma valid_year_str_int: "1900 \<le> v \<Longrightarrow> v \<le> 2030 \<Longrightarrow> valid_year (str_int v)"
  using str_int_year [of v] by (simp add: valid_year_def)

lemma extract_year_from_date_valid:
  assumes "extract_year_from_date s = Inr y"
  shows "y = [] \<or> valid_year y"
proof (cases "s = []")
  case True
  with assms show ?thesis by (simp add: extract_year_from_date_def)
next
  case False
  show ?thesis
  proof (cases "re_search no_flags four_digits s")
    case None
    with assms False show ?thesis by (simp add: extract_year_from_date_def)
  next
    case (Some r)
    from search_four_digits [OF Some] obtain a b c d where
      g: "group_of r 1 = [a, b, c, d]" and dg: "is_digit a" "is_digit b" "is_digit c" "is_digit d"
      by blast
    obtain v where v: "py_int (group_of r 1) = Some v"
      using g py_int_four_digits [OF dg] by simp
    show ?thesis
    proof (cases "1900 \<le> v \<and> v \<le> 2030")
      case True
      with assms False Some v have "y = str_int v" by (simp add: extract_year_from_date_def)
      with True show ?thesis by (simp add: valid_year_str_int)
    next
      case F: False
      with assms False Some v have "y = []" by (auto simp: extract_year_from_date_def)
      then show ?thesis by simp
    qed
  qed
qed

lemma year_of_line_tokens_valid:
  "(\<And>t. t \<in> set ts \<Longrightarrow> four_digit_text t) \<Longrightarrow>
   year_of_line_tokens line ts = Inr (Some y) \<Longrightarrow> valid_year y"
proof (induction ts)
  case Nil
  then show ?case by simp
next
  case (Cons t ts)
  show ?case
  proof (cases "py_int t")
    case None
    with Cons.prems(2) show ?thesis by simp
  next
    case (Some v)
    show ?thesis
    proof (cases "1900 \<le> v \<and> v \<le> 2030 \<and>
        (contains_any (lower line) publication_keywords \<or> (1980 \<le> v \<and> v \<le> 2030))")
      case True
      with Cons.prems(2) Some have "y = t" by auto
      moreover have "four_digit_text t" using Cons.prems(1) by simp
      ultimately show ?thesis using Some True by (simp add: valid_year_def)
    next
      case False
      with Cons.prems(2) Some have "year_of_line_tokens line ts = Inr (Some y)" by auto
      moreover have "\<And>u. u \<in> set ts \<Longrightarrow> four_digit_text u" using Cons.prems(1) by simp
      ultimately show ?thesis using Cons.IH by blast
    qed
  qed
qed

lemma year_of_lines_valid: "year_of_lines ls = Inr y \<Longrightarrow> y = [] \<or> valid_year y"
proof (induction ls)
  case Nil
  then show ?case by simp
next
  case (Cons l ls)
  show ?case
  proof (cases "year_of_line_tokens l (re_findall no_flags four_digits l)")
    case (Inl e)
    with Cons.prems show ?thesis by simp
  next
    case (Inr r)
    show ?thesis
    proof (cases r)
      case None
      with Cons.prems Inr have "year_of_lines ls = Inr y" by simp
      then show ?thesis by (rule Cons.IH)
    next
      case (Some z)
      with Cons.prems Inr have "y = z" by simp
      moreover have "valid_year z"
        using year_of_line_tokens_valid [of "re_findall no_flags four_digits l" l z]
          findall_four_digits Inr Some by blast
      ultimately show ?thesis by simp
    qed
  qed
qed

lemma extract_year_from_text_valid: "extract_year_from_text t = Inr y \<Longrightarrow> y = [] \<or> valid_year y"
  by (cases "t = []") (auto simp: extract_year_from_text_def dest: year_of_lines_valid)

lemma text_year_valid:
  "year (extract_text_based_metadata ex rd) = [] \<or> valid_year (year (extract_text_based_metadata ex rd))"
proof (cases "first_pages_text (take 3 (reader_pages rd)) = []")
  case True
  then show ?thesis
    by (simp add: extract_text_based_metadata_def text_defaults_def empty_metadata_def)
next
  case False
  show ?thesis
  proof (cases "extract_year_from_text (first_pages_text (take 3 (reader_pages rd)))")
    case (Inl e)
    with False show ?thesis
      by (simp add: extract_text_based_metadata_def Let_def text_defaults_def empty_metadata_def)
  next
    case (Inr y)
    from extract_year_from_text_valid [OF Inr] False Inr show ?thesis
      by (simp add: extract_text_based_metadata_def Let_def)
  qed
qed

lemma merge_year: "year (merge_metadata a b) = prefer_text (year a) (year b)"
  by (simp add: merge_metadata_def Let_def)

lemma prefer_text_cases: "prefer_text a b = a \<or> prefer_text a b = b"
  by (simp add: prefer_text_def)

lemma extract_metadata_year:
  "year (extract_metadata ex rd) = [] \<or> valid_year (year (extract_metadata ex rd))"
proof (cases "reader_info rd")
  case None
  have "year metadata_defaults = []" by (simp add: metadata_defaults_def empty_metadata_def)
  then show ?thesis
    using None text_year_valid [of ex rd]
      prefer_text_cases [of "[]" "year (extract_text_based_metadata ex rd)"]
    by (auto simp: extract_metadata_def merge_year)
next
  case (Some i)
  show ?thesis
  proof (cases "extract_year_from_date (creation_date (container_metadata i))")
    case (Inl e)
    have "year (container_metadata i) = []"
      by (simp add: container_metadata_def Let_def metadata_defaults_def empty_metadata_def)
    with Some Inl show ?thesis by (simp add: extract_metadata_def Let_def)
  next
    case (Inr y)
    from extract_year_from_date_valid [OF Inr] have y: "y = [] \<or> valid_year y" .
    show ?thesis
      using Some Inr y text_year_valid [of ex rd]
        prefer_text_cases [of y "year (extract_text_based_metadata ex rd)"]
      by (auto simp: extract_metadata_def Let_def merge_year)
  qed
qed

lemma dict_set_all:
  "list_all (\<lambda>item. P (snd item)) kvs \<Longrightarrow> P v \<Longrightarrow> list_all (\<lambda>item. P (snd item)) (dict_set kvs k v)"
  by (induction kvs) auto

lemma year_2029:
  "map_option (\<lambda>d. year (d_metadata d))
     (map_of (snd (add_pdf empty_extractors [] (dated_file ''a.pdf'' ''D:20290101120000''))) ''a.pdf'') =
   Some ''2029''"
  by code_simp

lemma year_2020:
  "map_option (\<lambda>d. year (d_metadata d))
     (map_of (snd (add_pdf empty_extractors [] (dated_file ''a.pdf'' ''D:20200101120000''))) ''a.pdf'') =
   Some ''2020''"
  by code_simp

text \<open>
  C5, as stated, fails: a document whose container gives the creation date
  \<open>D:20290101120000\<close> is stored with the year 2029, which is later than the current year
  2026. The bound of the library is the constant 2030, not the clock.
\<close>

theorem stored_year_counterexample:
  "map_option (\<lambda>d. py_int (year (d_metadata d)))
     (map_of (snd (add_pdf empty_extractors [] (dated_file ''a.pdf'' ''D:20290101120000''))) ''a.pdf'') =
   Some (Some 2029) \<and> (2026 :: int) < 2029"
  by code_simp

text \<open>
  C5, amended. For every ingested document, the stored metadata year, when non-empty,
  is a text of four digits whose value lies between 1900 and 2030: that holds of the
  metadata that \<open>_extract_metadata\<close> computes for any container and any page texts, and
  adding a document keeps it true of every document in the library.
\<close>

theorem stored_year_valid:
  "year_ok (extract_metadata ex rd) \<and>
   (library_years_ok lib \<longrightarrow> library_years_ok (snd (add_pdf ex lib f)))"
proof
  show "year_ok (extract_metadata ex rd)"
    using extract_metadata_year [of ex rd] by (simp add: year_ok_def)
  show "library_years_ok lib \<longrightarrow> library_years_ok (snd (add_pdf ex lib f))"
  proof
    assume ok: "library_years_ok lib"
    show "library_years_ok (snd (add_pdf ex lib f))"
    proof (cases "file_reader f")
      case None
      with ok show ?thesis by (simp add: add_pdf_def)
    next
      case (Some r)
      have "year_ok (extract_metadata ex r)"
        using extract_metadata_year [of ex r] by (simp add: year_ok_def)
      then have "library_years_ok (dict_set lib (file_name f)
          \<lparr>d_filename = file_name f, full_text = full_text_of (reader_pages r),
           d_pages = pages_with_text 1 (reader_pages r), d_metadata = extract_metadata ex r\<rparr>)"
        using ok dict_set_all [of "\<lambda>d. year_ok (d_metadata d)" lib]
        by (simp add: library_years_ok_def)
      with ok Some show ?thesis by (simp add: add_pdf_def Let_def)
    qed
  qed
qed

theorem stored_year_valid_witness:
  "year_ok (extract_metadata empty_extractors (dated_reader ''D:20200101120000'')) \<and>
   library_years_ok [] \<and>
   library_years_ok (snd (add_pdf empty_extractors [] (dated_file ''a.pdf'' ''D:20200101120000''))) \<and>
   map_option (\<lambda>d. year (d_metadata d))
     (map_of (snd (add_pdf empty_extractors [] (dated_file ''a.pdf'' ''D:20200101120000''))) ''a.pdf'') =
   Some ''2020''"
proof -
  have e: "library_years_ok []" by (simp add: library_years_ok_def)
  from stored_year_valid [of empty_extractors "dated_reader ''D:20200101120000''" "[]"
      "dated_file ''a.pdf'' ''D:20200101120000''"] e
  have "year_ok (extract_metadata empty_extractors (dated_reader ''D:20200101120000'')) \<and>
    library_years_ok (snd (add_pdf empty_extractors [] (dated_file ''a.pdf'' ''D:20200101120000'')))"
    by blast
  with e year_2020 show ?thesis by blast
qed

section \<open>The two author fields\<close>

lemma merge_authors: "authors (merge_metadata a b) = prefer_text_list (authors a) (authors b)"
  by (simp add: merge_metadata_def Let_def)

lemma merge_author:
  "author (merge_metadata a b) =
     (if authors (merge_metadata a b) \<noteq> [] \<and> author a = []
      then join '', '' (authors (merge_metadata a b)) else author a)"
  by (simp add: merge_metadata_def Let_def)

lemma container_metadata_author:
  "author (container_metadata i) = strip (info_author i)"
  by (simp add: container_metadata_def Let_def metadata_defaults_def empty_metadata_def)

lemma container_metadata_authors:
  "strip (info_author i) = [] \<Longrightarrow> authors (container_metadata i) = []"
  by (simp add: container_metadata_def Let_def metadata_defaults_def empty_metadata_def)

lemma smith_jones:
  "authors (extract_metadata empty_extractors (authored_reader ''Smith; Jones'')) = [''Smith'', ''Jones''] \<and>
   author (extract_metadata empty_extractors (authored_reader ''Smith; Jones'')) = ''Smith; Jones''"
  by code_simp

lemma text_names:
  "authors (extract_metadata empty_extractors (text_only_reader ''John Smith and Mary Jones'')) =
     [''John Smith'', ''Mary Jones''] \<and>
   author (extract_metadata empty_extractors (text_only_reader ''John Smith and Mary Jones'')) =
     ''John Smith, Mary Jones''"
  by code_simp

text \<open>
  C6, as stated, fails: for a container whose author entry is \<open>Smith; Jones\<close> the record
  has the authors \<open>Smith\<close> and \<open>Jones\<close> and the author text \<open>Smith; Jones\<close>, which is not
  the authors joined by a comma and a space.
\<close>

theorem author_fields_counterexample:
  "authors (extract_metadata empty_extractors (authored_reader ''Smith; Jones'')) \<noteq> [] \<and>
   author (extract_metadata empty_extractors (authored_reader ''Smith; Jones'')) \<noteq> [] \<and>
   author (extract_metadata empty_extractors (authored_reader ''Smith; Jones'')) \<noteq>
     join '', '' (authors (extract_metadata empty_extractors (authored_reader ''Smith; Jones'')))"
  by (simp add: smith_jones)

text \<open>
  C6, amended. For every metadata record produced by extraction: when the container
  gives no author text and the list of authors is non-empty, \<open>author\<close> is the elements
  of \<open>authors\<close> joined by a comma and a space; when the container gives an author
  text, \<open>author\<close> is that text, stripped, whatever the list of authors holds.
\<close>

theorem author_fields:
  "(container_author rd = [] \<and> authors (extract_metadata ex rd) \<noteq> [] \<longrightarrow>
      author (extract_metadata ex rd) = join '', '' (authors (extract_metadata ex rd))) \<and>
   (container_author rd \<noteq> [] \<longrightarrow> author (extract_metadata ex rd) = container_author rd)"
proof (cases "reader_info rd")
  case None
  have "author metadata_defaults = []" by (simp add: metadata_defaults_def empty_metadata_def)
  with None show ?thesis
    by (simp add: container_author_def extract_metadata_def merge_author)
next
  case (Some i)
  show ?thesis
  proof (cases "extract_year_from_date (creation_date (container_metadata i))")
    case (Inl e)
    with Some show ?thesis
      by (auto simp: container_author_def extract_metadata_def Let_def container_metadata_author
          container_metadata_authors)
  next
    case (Inr y)
    with Some show ?thesis
      by (simp add: container_author_def extract_metadata_def Let_def merge_author
          container_metadata_author)
  qed
qed

theorem author_fields_witness:
  "container_author (text_only_reader ''John Smith and Mary Jones'') = [] \<and>
   authors (extract_metadata empty_extractors (text_only_reader ''John Smith and Mary Jones'')) =
     [''John Smith'', ''Mary Jones''] \<and>
   author (extract_metadata empty_extractors (text_only_reader ''John Smith and Mary Jones'')) =
     join '', '' (authors (extract_metadata empty_extractors (text_only_reader ''John Smith and Mary Jones''))) \<and>
   container_author (authored_reader ''Smith; Jones'') = ''Smith; Jones'' \<and>
   author (extract_metadata empty_extractors (authored_reader ''Smith; Jones'')) = ''Smith; Jones''"
proof -
  have c1: "container_author (text_only_reader ''John Smith and Mary Jones'') = []"
    by (simp add: container_author_def text_only_reader_def)
  have c2: "container_author (authored_reader ''Smith; Jones'') = ''Smith; Jones''"
    by code_simp
  have n: "authors (extract_metadata empty_extractors (text_only_reader ''John Smith and Mary Jones'')) \<noteq> []"
    by (simp add: text_names)
  from author_fields [of "text_only_reader ''John Smith and Mary Jones''" empty_extractors] c1 n
  have a1: "author (extract_metadata empty_extractors (text_only_reader ''John Smith and Mary Jones'')) =
     join '', '' (authors (extract_metadata empty_extractors (text_only_reader ''John Smith and Mary Jones'')))"
    by blast
  from author_fields [of "authored_reader ''Smith; Jones''" empty_extractors] c2
  have a2: "author (extract_metadata empty_extractors (authored_reader ''Smith; Jones'')) = ''Smith; Jones''"
    by simp
  show ?thesis using c1 c2 a1 a2 text_names by blast
qed

section \<open>Assembly of the IEEE reference list\<close>

text \<open>
  When the listed sources carry the numbers 1 to \<open>m\<close>, the list is the one that the
  comment of the code announces (\<open>Use the citation_map to maintain consistent
  numbering\<close>): after \<open>a.pdf\<close> and \<open>b.pdf\<close> have been cited, the citations of \<open>b.pdf\<close>,
  \<open>c.pdf\<close> and \<open>a.pdf\<close> are listed as \<open>[1]\<close> \<open>a\<close>, \<open>[2]\<close> \<open>b\<close>, \<open>[3]\<close> \<open>c\<close>.
\<close>

lemma ieee_list_all_listed:
  "format_reference_list two_cited [cite_of ''b.pdf'', cite_of ''c.pdf'', cite_of ''a.pdf''] =
     ''References'' @ nl @ nl @
     ''[1] '' @ dq @ ''a'' @ dq @ '' .'' @ nl @ nl @
     ''[2] '' @ dq @ ''b'' @ dq @ '' .'' @ nl @ nl @
     ''[3] '' @ dq @ ''c'' @ dq @ '' .''"
  by code_simp

text \<open>
  C7: in the IEEE reference list each entry whose source has an assigned number is
  placed at the position given by that number, the citations whose source has no
  number follow in encounter order, numbered on, and each line reads \<open>[n] reference\<close>.

  The code does not place every numbered entry at its number. It makes as many slots as
  the first loop collected references, not as many as the largest assigned number, puts
  a reference into its slot only under the test \<open>0 <= idx < len(ordered_references)\<close>,
  which has no other branch, and removes the empty slots before it numbers the lines.
  After \<open>a.pdf\<close> and \<open>b.pdf\<close> have been cited, \<open>b.pdf\<close> has the number 2 and a reference
  of its own; yet the list of the single citation of \<open>b.pdf\<close> is the bare header, without
  any entry, and the list of the citations of \<open>b.pdf\<close> and \<open>c.pdf\<close> prints the reference
  of \<open>b.pdf\<close> as \<open>[1]\<close>.
\<close>

theorem ieee_list_misplaces_numbered:
  "style two_cited = IEEE \<and>
   citation_map two_cited ''a.pdf'' = Some 1 \<and>
   citation_map two_cited ''b.pdf'' = Some 2 \<and>
   citation_map two_cited ''c.pdf'' = None \<and>
   format_full_reference two_cited (cite_of ''b.pdf'') = Some (dq @ ''b'' @ dq @ '' .'') \<and>
   format_reference_list two_cited [cite_of ''b.pdf''] = ''References'' \<and>
   format_reference_list two_cited [cite_of ''b.pdf'', cite_of ''c.pdf''] =
     ''References'' @ nl @ nl @
     ''[1] '' @ dq @ ''b'' @ dq @ '' .'' @ nl @ nl @
     ''[2] '' @ dq @ ''c'' @ dq @ '' .''"
  by code_simp

section \<open>Formatting, then validating\<close>

lemma eats_Eps: "eats fl Eps []"
  by (simp add: eats_def)

lemma eats_Atom: "cset_has fl cs c \<Longrightarrow> eats fl (Atom cs) [c]"
  by (simp add: eats_def state_at_def)

lemma eats_Seq: "eats fl r1 u1 \<Longrightarrow> eats fl r2 u2 \<Longrightarrow> eats fl (Seq r1 r2) (u1 @ u2)"
proof -
  assume a: "eats fl r1 u1" and b: "eats fl r2 u2"
  show ?thesis
    unfolding eats_def
  proof (intro allI)
    fix n v
    have 1: "state_at (n + length u1) (u2 @ v) \<in> set (rx_match fl r1 (state_at n (u1 @ (u2 @ v))))"
      using a by (simp add: eats_def)
    have 2: "state_at (n + length u1 + length u2) v \<in> set (rx_match fl r2 (state_at (n + length u1) (u2 @ v)))"
      using b by (simp add: eats_def)
    show "state_at (n + length (u1 @ u2)) v \<in> set (rx_match fl (Seq r1 r2) (state_at n ((u1 @ u2) @ v)))"
      using 1 2 by (auto simp: add.assoc)
  qed
qed

lemma star_iter_atoms:
  "length u \<le> k \<Longrightarrow> (\<And>c. c \<in> set u \<Longrightarrow> cset_has fl cs c) \<Longrightarrow>
   state_at (n + length u) v \<in> set (star_iter (rx_match fl (Atom cs)) k (state_at n (u @ v)))"
proof (induction u arbitrary: k n)
  case Nil
  then show ?case by (cases k) simp_all
next
  case (Cons c u)
  then obtain k' where k: "k = Suc k'" and le: "length u \<le> k'" by (cases k) auto
  have ok: "cset_has fl cs c" using Cons.prems(2) by simp
  have step: "rx_match fl (Atom cs) (state_at n ((c # u) @ v)) = [state_at (Suc n) (u @ v)]"
    using ok by (simp add: state_at_def)
  have ih: "state_at (Suc n + length u) v \<in> set (star_iter (rx_match fl (Atom cs)) k' (state_at (Suc n) (u @ v)))"
    by (rule Cons.IH [OF le]) (simp add: Cons.prems(2))
  have "star_iter (rx_match fl (Atom cs)) (Suc k') (state_at n ((c # u) @ v)) =
      star_iter (rx_match fl (Atom cs)) k' (state_at (Suc n) (u @ v)) @ [state_at n ((c # u) @ v)]"
    by (simp only: star_iter.simps step) (simp add: state_at_def del: rx_match.simps)
  then show ?case
    using k ih by (simp del: rx_match.simps)
qed

lemma eats_Star: "(\<And>c. c \<in> set u \<Longrightarrow> cset_has fl cs c) \<Longrightarrow> eats fl (Star (Atom cs)) u"
  unfolding eats_def
proof (intro allI)
  fix n v
  assume a: "\<And>c. c \<in> set u \<Longrightarrow> cset_has fl cs c"
  have "length u \<le> Suc (length (u @ v))" by simp
  from star_iter_atoms [OF this a]
  show "state_at (n + length u) v \<in> set (rx_match fl (Star (Atom cs)) (state_at n (u @ v)))"
    by (simp add: state_at_def)
qed

lemma eats_Plus:
  assumes "u \<noteq> []" and a: "\<And>c. c \<in> set u \<Longrightarrow> cset_has fl cs c"
  shows "eats fl (Plus (Atom cs)) u"
proof -
  obtain c u' where u: "u = [c] @ u'" using assms(1) by (cases u) auto
  have "eats fl (Atom cs) [c]" using a u by (simp add: eats_Atom)
  moreover have "eats fl (Star (Atom cs)) u'" using a u by (simp add: eats_Star)
  ultimately show ?thesis unfolding Plus_def u by (rule eats_Seq)
qed

lemma eats_dots: "u \<noteq> [] \<Longrightarrow> one_line u \<Longrightarrow> eats no_flags (Plus AnyChar) u"
  unfolding AnyChar_def by (rule eats_Plus) (auto simp: one_line_def no_flags_def)

lemma eats_Lit: "eats no_flags (Lit c) [c]"
  unfolding Lit_def by (rule eats_Atom) simp

lemma eats_space: "eats no_flags (Star Space) '' ''"
  unfolding Space_def by (rule eats_Star) (simp add: no_flags_def is_space_def code_def)

lemma eats_nothing: "eats no_flags (Star r) []"
  by (simp add: eats_def)

lemma eats_four_digits: "four_digit_text y \<Longrightarrow> eats no_flags (Rep 4 Digit) y"
proof -
  assume "four_digit_text y"
  then obtain a b c d where y: "y = [a] @ [b] @ [c] @ [d] @ []"
    and dg: "is_digit a" "is_digit b" "is_digit c" "is_digit d"
    by (cases y; cases "tl y"; cases "tl (tl y)"; cases "tl (tl (tl y))")
       (auto simp: four_digit_text_def)
  have at: "\<And>x. is_digit x \<Longrightarrow> eats no_flags Digit [x]"
    unfolding Digit_def by (rule eats_Atom) (simp add: no_flags_def)
  have four: "(4::nat) = Suc (Suc (Suc (Suc 0)))" by simp
  show ?thesis
    unfolding y by (simp only: four Rep.simps) (intro eats_Seq at dg eats_Eps)
qed

lemma eats_match: "eats fl r u \<Longrightarrow> re_match fl (Seq Bol r) (u @ z) \<noteq> None"
proof -
  assume "eats fl r u"
  then have "state_at (0 + length u) z \<in> set (rx_match fl r (state_at 0 (u @ z)))"
    unfolding eats_def by blast
  then have "rx_match fl r (state_at 0 (u @ z)) \<noteq> []" by auto
  then show ?thesis
    by (simp add: re_match_def match_at_def state_at_def split: list.splits)
qed

lemma one_line_space: "one_line x \<Longrightarrow> x @ '' '' \<noteq> [] \<and> one_line (x @ '' '')"
  by (simp add: one_line_def)

lemma apa_year_ok:
  assumes "one_line x" "four_digit_text y"
  shows "validate_apa_format (x @ '' ('' @ y @ '').'' @ z)"
proof -
  have e: "eats no_flags
      (Seqs [Plus AnyChar, Star Space, Lit CHR ''('', Rep 4 Digit, Lit CHR '')'', Lit CHR ''.'', Star AnyChar])
      ((x @ '' '') @ [] @ [CHR ''(''] @ y @ [CHR '')''] @ [CHR ''.''] @ [])"
    unfolding Seqs.simps
    using one_line_space [OF assms(1)] assms(2)
    by (intro eats_Seq eats_dots eats_Lit eats_nothing eats_four_digits) simp_all
  have s: "x @ '' ('' @ y @ '').'' @ z =
      ((x @ '' '') @ [] @ [CHR ''(''] @ y @ [CHR '')''] @ [CHR ''.''] @ []) @ z"
    by simp
  have "re_match no_flags (hd apa_patterns) (x @ '' ('' @ y @ '').'' @ z) \<noteq> None"
    unfolding s apa_patterns_def list.sel Seqs.simps(3) [of Bol]
    using eats_match [OF e] by (simp only: Seqs.simps not_False_eq_True)
  then show ?thesis
    by (simp add: validate_apa_format_def matches_any_def apa_patterns_def del: Seqs.simps)
qed

lemma apa_nd_ok:
  assumes "one_line x"
  shows "validate_apa_format (x @ '' (n.d.).'' @ z)"
proof -
  have e: "eats no_flags
      (Seqs [Plus AnyChar, Star Space, Lits ''(n.d.)'', Lit CHR ''.'', Star AnyChar])
      ((x @ '' '') @ [] @
       ([CHR ''(''] @ [CHR ''n''] @ [CHR ''.''] @ [CHR ''d''] @ [CHR ''.''] @ [CHR '')'']) @
       [CHR ''.''] @ [])"
    unfolding Lits_def list.map Seqs.simps
    using one_line_space [OF assms(1)]
    by (intro eats_Seq eats_dots eats_Lit eats_nothing) simp_all
  have s: "x @ '' (n.d.).'' @ z =
      ((x @ '' '') @ [] @
       ([CHR ''(''] @ [CHR ''n''] @ [CHR ''.''] @ [CHR ''d''] @ [CHR ''.''] @ [CHR '')'']) @
       [CHR ''.''] @ []) @ z"
    by simp
  have "re_match no_flags
      (Seqs [Bol, Plus AnyChar, Star Space, Lits ''(n.d.)'', Lit CHR ''.'', Star AnyChar])
      (x @ '' (n.d.).'' @ z) \<noteq> None"
    unfolding s Seqs.simps(3) [of Bol]
    using eats_match [OF e] by (simp only: Seqs.simps not_False_eq_True)
  then show ?thesis
    by (simp add: validate_apa_format_def matches_any_def apa_patterns_def del: Seqs.simps)
qed

lemma mla_ok:
  assumes "a \<noteq> []" "one_line a" "t \<noteq> []" "one_line t" "four_digit_text y"
  shows "validate_mla_format (a @ ''. '' @ dq @ t @ dq @ '' '' @ y @ ''.'' @ z)"
proof -
  have e: "eats no_flags
      (Seqs [Plus AnyChar, Lit CHR ''.'', Star Space, Lit CHR 0x22, Plus AnyChar, Lit CHR 0x22,
             Star Space, Rep 4 Digit, Lit CHR ''.'', Star AnyChar])
      (a @ [CHR ''.''] @ '' '' @ [CHR 0x22] @ t @ [CHR 0x22] @ '' '' @ y @ [CHR ''.''] @ [])"
    unfolding Seqs.simps
    using assms
    by (intro eats_Seq eats_dots eats_Lit eats_space eats_nothing eats_four_digits) simp_all
  have s: "a @ ''. '' @ dq @ t @ dq @ '' '' @ y @ ''.'' @ z =
      (a @ [CHR ''.''] @ '' '' @ [CHR 0x22] @ t @ [CHR 0x22] @ '' '' @ y @ [CHR ''.''] @ []) @ z"
    by (simp add: dq_def)
  have "re_match no_flags
      (Seqs [Bol, Plus AnyChar, Lit CHR ''.'', Star Space, Lit CHR 0x22, Plus AnyChar, Lit CHR 0x22,
             Star Space, Rep 4 Digit, Lit CHR ''.'', Star AnyChar])
      (a @ ''. '' @ dq @ t @ dq @ '' '' @ y @ ''.'' @ z) \<noteq> None"
    unfolding s Seqs.simps(3) [of Bol]
    using eats_match [OF e] by (simp only: Seqs.simps not_False_eq_True)
  then show ?thesis
    by (simp add: validate_mla_format_def matches_any_def mla_patterns_def del: Seqs.simps)
qed

lemma chicago_ok:
  assumes "a \<noteq> []" "one_line a" "t \<noteq> []" "one_line t" "four_digit_text y"
  shows "validate_chicago_format (a @ ''. '' @ y @ ''. '' @ dq @ t @ dq @ ''.'' @ z)"
proof -
  have e: "eats no_flags
      (Seqs [Plus AnyChar, Lit CHR ''.'', Star Space, Rep 4 Digit, Lit CHR ''.'', Star Space,
             Lit CHR 0x22, Plus AnyChar, Lit CHR 0x22, Lit CHR ''.'', Star AnyChar])
      (a @ [CHR ''.''] @ '' '' @ y @ [CHR ''.''] @ '' '' @ [CHR 0x22] @ t @ [CHR 0x22] @ [CHR ''.''] @ [])"
    unfolding Seqs.simps
    using assms
    by (intro eats_Seq eats_dots eats_Lit eats_space eats_nothing eats_four_digits) simp_all
  have s: "a @ ''. '' @ y @ ''. '' @ dq @ t @ dq @ ''.'' @ z =
      (a @ [CHR ''.''] @ '' '' @ y @ [CHR ''.''] @ '' '' @ [CHR 0x22] @ t @ [CHR 0x22] @ [CHR ''.''] @ []) @ z"
    by (simp add: dq_def)
  have "re_match no_flags
      (Seqs [Bol, Plus AnyChar, Lit CHR ''.'', Star Space, Rep 4 Digit, Lit CHR ''.'', Star Space,
             Lit CHR 0x22, Plus AnyChar, Lit CHR 0x22, Lit CHR ''.'', Star AnyChar])
      (a @ ''. '' @ y @ ''. '' @ dq @ t @ dq @ ''.'' @ z) \<noteq> None"
    unfolding s Seqs.simps(3) [of Bol]
    using eats_match [OF e] by (simp only: Seqs.simps not_False_eq_True)
  then show ?thesis
    by (simp add: validate_chicago_format_def matches_any_def chicago_patterns_def del: Seqs.simps)
qed

lemma ieee_ok:
  assumes "a \<noteq> []" "one_line a" "t \<noteq> []" "one_line t"
  shows "validate_ieee_format (a @ '', '' @ dq @ t @ dq @ z)"
proof -
  have e: "eats no_flags
      (Seqs [Plus AnyChar, Lit CHR '','', Star Space, Lit CHR 0x22, Plus AnyChar, Lit CHR 0x22,
             Star AnyChar])
      (a @ [CHR '',''] @ '' '' @ [CHR 0x22] @ t @ [CHR 0x22] @ [])"
    unfolding Seqs.simps
    using assms
    by (intro eats_Seq eats_dots eats_Lit eats_space eats_nothing) simp_all
  have s: "a @ '', '' @ dq @ t @ dq @ z =
      (a @ [CHR '',''] @ '' '' @ [CHR 0x22] @ t @ [CHR 0x22] @ []) @ z"
    by (simp add: dq_def)
  have "re_match no_flags
      (Seqs [Bol, Plus AnyChar, Lit CHR '','', Star Space, Lit CHR 0x22, Plus AnyChar, Lit CHR 0x22,
             Star AnyChar])
      (a @ '', '' @ dq @ t @ dq @ z) \<noteq> None"
    unfolding s Seqs.simps(3) [of Bol]
    using eats_match [OF e] by (simp only: Seqs.simps not_False_eq_True)
  then show ?thesis
    by (simp add: validate_ieee_format_def matches_any_def ieee_patterns_def del: Seqs.simps)
qed

lemma four_digit_int: "four_digit_text t \<Longrightarrow> \<exists>v. py_int t = Some v"
proof -
  assume "four_digit_text t"
  then obtain a b c d where "t = [a, b, c, d]" "is_digit a" "is_digit b" "is_digit c" "is_digit d"
    by (cases t; cases "tl t"; cases "tl (tl t)"; cases "tl (tl (tl t))")
       (auto simp: four_digit_text_def)
  then show ?thesis using py_int_four_digits by blast
qed

lemma year_from_tokens_four:
  "(\<And>t. t \<in> set ts \<Longrightarrow> four_digit_text t) \<Longrightarrow>
   \<exists>r. year_from_tokens st ts = Inr r \<and> (r = None \<or> four_digit_text (the r))"
proof (induction ts)
  case Nil
  then show ?case by simp
next
  case (Cons t ts)
  have "four_digit_text t" using Cons.prems by simp
  then obtain v where v: "py_int t = Some v" using four_digit_int by blast
  show ?case
  proof (cases "1900 \<le> v \<and> v \<le> current_year st")
    case True
    with v \<open>four_digit_text t\<close> show ?thesis by simp
  next
    case False
    have "\<exists>r. year_from_tokens st ts = Inr r \<and> (r = None \<or> four_digit_text (the r))"
      using Cons.IH Cons.prems by simp
    with v False show ?thesis by auto
  qed
qed

lemma year_from_filename_four:
  "\<exists>r. year_from_filename st f = Inr r \<and> (r = None \<or> four_digit_text (the r))"
  unfolding year_from_filename_def
  by (rule year_from_tokens_four) (rule findall_four_digits)

lemma year_from_creation_date_four:
  assumes "current_year st \<le> 9999"
  shows "\<exists>r. year_from_creation_date st md f = Inr r \<and> (r = None \<or> four_digit_text (the r))"
proof (cases "creation_date md \<noteq> [] \<and> re_search no_flags four_digits (creation_date md) \<noteq> None")
  case False
  then show ?thesis
    using year_from_filename_four [of st f]
    by (auto simp: year_from_creation_date_def split: option.splits)
next
  case True
  then obtain m where m: "re_search no_flags four_digits (creation_date md) = Some m" by auto
  from search_four_digits [OF m] obtain a b c d where
    g: "group_of m 1 = [a, b, c, d]" and dg: "is_digit a" "is_digit b" "is_digit c" "is_digit d"
    by blast
  obtain v where v: "py_int (group_of m 1) = Some v"
    using g py_int_four_digits [OF dg] by simp
  show ?thesis
  proof (cases "1900 \<le> v \<and> v \<le> current_year st")
    case T: True
    then have "four_digit_text (str_int v)" using assms str_int_year(1) [of v] by simp
    with True m v T show ?thesis by (simp add: year_from_creation_date_def)
  next
    case F: False
    with True m v show ?thesis
      using year_from_filename_four [of st f] by (auto simp: year_from_creation_date_def)
  qed
qed

lemma extract_year_four:
  assumes "current_year st \<le> 9999"
  shows "\<exists>r. extract_year st md f = Inr r \<and> (r = None \<or> four_digit_text (the r))"
proof (cases "strip (year md) \<noteq> [] \<and>
    (\<exists>v. py_int (strip (year md)) = Some v \<and> 1900 \<le> v \<and> v \<le> current_year st)")
  case True
  then obtain v where v: "py_int (strip (year md)) = Some v" "1900 \<le> v" "v \<le> current_year st"
    by blast
  then have "four_digit_text (str_int v)" using assms str_int_year(1) [of v] by simp
  with True v show ?thesis by (simp add: extract_year_def Let_def)
next
  case False
  then have "extract_year st md f = year_from_creation_date st md f"
    by (auto simp: extract_year_def Let_def split: option.splits)
  then show ?thesis using year_from_creation_date_four [OF assms] by simp
qed

lemma set_dropWhile_keeps: "x \<in> set xs \<Longrightarrow> \<not> P x \<Longrightarrow> x \<in> set (dropWhile P xs)"
  by (induction xs) auto

lemma strip_nonempty: "c \<in> set s \<Longrightarrow> \<not> is_space c \<Longrightarrow> strip s \<noteq> []"
proof -
  assume a: "c \<in> set s" "\<not> is_space c"
  then have "c \<in> set (dropWhile is_space s)" by (rule set_dropWhile_keeps)
  then have "c \<in> set (rev (dropWhile is_space s))" by simp
  then have "c \<in> set (dropWhile is_space (rev (dropWhile is_space s)))"
    using a(2) by (rule set_dropWhile_keeps)
  then have "dropWhile is_space (rev (dropWhile is_space s)) \<noteq> []"
    by (metis empty_iff list.set(1))
  then show ?thesis by (simp add: strip_def lstrip_def rstrip_def)
qed

lemma split_ws_words:
  "w \<in> set (split_ws_from acc s) \<Longrightarrow> (\<And>c. c \<in> set acc \<Longrightarrow> \<not> is_space c) \<Longrightarrow>
   w \<noteq> [] \<and> (\<forall>c \<in> set w. \<not> is_space c)"
proof (induction s arbitrary: acc)
  case Nil
  then show ?case by (auto split: if_splits)
next
  case (Cons x s)
  show ?case
  proof (cases "is_space x")
    case True
    show ?thesis
    proof (cases "acc = []")
      case A: True
      with True Cons.prems(1) have "w \<in> set (split_ws_from [] s)" by simp
      from Cons.IH [OF this] show ?thesis by simp
    next
      case A: False
      with True Cons.prems(1) have "w = rev acc \<or> w \<in> set (split_ws_from [] s)" by simp
      then show ?thesis
      proof
        assume "w = rev acc"
        then show ?thesis using A Cons.prems(2) by simp
      next
        assume "w \<in> set (split_ws_from [] s)"
        from Cons.IH [OF this] show ?thesis by simp
      qed
    qed
  next
    case False
    with Cons.prems(1) have m: "w \<in> set (split_ws_from (x # acc) s)" by simp
    have "\<And>c. c \<in> set (x # acc) \<Longrightarrow> \<not> is_space c" using False Cons.prems(2) by auto
    from Cons.IH [OF m this] show ?thesis .
  qed
qed

lemma join_hd: "ws \<noteq> [] \<Longrightarrow> set (hd ws) \<subseteq> set (join sep ws)"
  by (induction sep ws rule: join.induct) auto

lemma joined_words_strip: "join '' '' (split_ws s) \<noteq> [] \<Longrightarrow> strip (join '' '' (split_ws s)) \<noteq> []"
proof -
  assume a: "join '' '' (split_ws s) \<noteq> []"
  then have ne: "split_ws s \<noteq> []" by auto
  then have "hd (split_ws s) \<in> set (split_ws_from [] s)" by (simp add: split_ws_def)
  from split_ws_words [OF this] have w: "hd (split_ws s) \<noteq> []"
    "\<forall>c \<in> set (hd (split_ws s)). \<not> is_space c" by simp_all
  then obtain c where c: "c \<in> set (hd (split_ws s))" by (cases "hd (split_ws s)") auto
  then have "c \<in> set (join '' '' (split_ws s))" using join_hd [OF ne] by blast
  moreover have "\<not> is_space c" using w c by simp
  ultimately show ?thesis by (rule strip_nonempty)
qed

lemma extract_title_nonempty: "extract_title md f \<noteq> []"
  by (auto simp: extract_title_def Let_def joined_words_strip)

lemma four_digit_nonempty: "four_digit_text y \<Longrightarrow> y \<noteq> []"
  by (auto simp: four_digit_text_def)

lemma mla_no_year:
  "format_citation (init_formatter MLA 2026) ''Smith_ClimateData.pdf'' empty_metadata =
     ''Smith. '' @ dq @ ''ClimateData'' @ dq \<and>
   \<not> validate_citation_format (init_formatter MLA 2026)
       (format_citation (init_formatter MLA 2026) ''Smith_ClimateData.pdf'' empty_metadata)"
  by code_simp

text \<open>
  C2, as stated, fails: under the MLA style the citation of \<open>Smith_ClimateData.pdf\<close>, a
  source with an author and without a year, is formatted as the author, a period and
  the quoted title, and the MLA validator rejects it, since its pattern asks for a
  year of four digits after the title.
\<close>

theorem round_trip_counterexample:
  "\<not> validate_citation_format (init_formatter MLA 2026)
       (format_citation (init_formatter MLA 2026) ''Smith_ClimateData.pdf'' empty_metadata)"
  by (rule mla_no_year [THEN conjunct2])

text \<open>
  C2, amended. For a formatter whose current year is at most 9999 and a source whose
  extracted author and title contain no line break, formatting a citation with
  \<open>format_citation\<close> and validating the result under the same style returns true: under
  APA for every combination of author presence and year presence; under MLA when an
  author and a year are present and the title does not begin with a double quote;
  under Chicago when an author and a year are present; under IEEE when an author is
  present and the title does not begin with a double quote.
\<close>

theorem round_trip:
  assumes cy: "current_year st \<le> 9999"
    and la: "one_line (extract_author st md filename False)"
    and lt: "one_line (extract_title md filename)"
    and pres: "style st = APA \<or>
        (style st = MLA \<and> extract_author st md filename False \<noteq> [] \<and>
           extract_year st md filename \<noteq> Inr None \<and> \<not> startswith (extract_title md filename) dq) \<or>
        (style st = CHICAGO \<and> extract_author st md filename False \<noteq> [] \<and>
           extract_year st md filename \<noteq> Inr None) \<or>
        (style st = IEEE \<and> extract_author st md filename False \<noteq> [] \<and>
           \<not> startswith (extract_title md filename) dq)"
  shows "validate_citation_format st (format_citation st filename md)"
proof -
  let ?a = "extract_author st md filename False"
  let ?t = "extract_title md filename"
  obtain r where r: "extract_year st md filename = Inr r" and r4: "r = None \<or> four_digit_text (the r)"
    using extract_year_four [OF cy] by blast
  have tne: "?t \<noteq> []" by (rule extract_title_nonempty)
  have tr: "truthy_opt r = (r \<noteq> None)"
    using r4 by (cases r) (auto dest: four_digit_nonempty)
  show ?thesis
  proof (cases "style st")
    case APA
    have "validate_apa_format (format_apa_citation ?a r ?t)"
    proof (cases r)
      case None
      show ?thesis
      proof (cases "?a = []")
        case True
        with None show ?thesis
          using apa_nd_ok [OF lt, of "[]"] by (simp add: format_apa_citation_def)
      next
        case False
        with None show ?thesis
          using apa_nd_ok [OF la, of "'' '' @ ?t @ ''.''"] by (simp add: format_apa_citation_def)
      qed
    next
      case (Some y)
      then have y4: "four_digit_text y" using r4 by simp
      show ?thesis
      proof (cases "?a = []")
        case True
        with Some show ?thesis
          using apa_year_ok [OF lt y4, of "[]"] four_digit_nonempty [OF y4]
          by (simp add: format_apa_citation_def)
      next
        case False
        with Some show ?thesis
          using apa_year_ok [OF la y4, of "'' '' @ ?t @ ''.''"] four_digit_nonempty [OF y4]
          by (simp add: format_apa_citation_def)
      qed
    qed
    with APA r show ?thesis
      by (simp add: validate_citation_format_def format_citation_def Let_def)
  next
    case MLA
    with pres r have ane: "?a \<noteq> []" and rn: "r \<noteq> None" and q: "\<not> startswith ?t dq" by auto
    then obtain y where y: "r = Some y" by auto
    then have y4: "four_digit_text y" using r4 by simp
    have "validate_mla_format (format_mla_citation ?a r ?t)"
      using mla_ok [OF ane la tne lt y4, of "[]"] ane y q four_digit_nonempty [OF y4]
      by (simp add: format_mla_citation_def formatted_title_def)
    with MLA r show ?thesis
      by (simp add: validate_citation_format_def format_citation_def Let_def)
  next
    case CHICAGO
    with pres r have ane: "?a \<noteq> []" and rn: "r \<noteq> None" by auto
    then obtain y where y: "r = Some y" by auto
    then have y4: "four_digit_text y" using r4 by simp
    have "validate_chicago_format (format_chicago_citation ?a r ?t)"
      using chicago_ok [OF ane la tne lt y4, of "[]"] ane y four_digit_nonempty [OF y4]
      by (simp add: format_chicago_citation_def)
    with CHICAGO r show ?thesis
      by (simp add: validate_citation_format_def format_citation_def Let_def)
  next
    case IEEE
    with pres r have ane: "?a \<noteq> []" and q: "\<not> startswith ?t dq" by auto
    have "validate_ieee_format (format_ieee_citation ?a r ?t filename)"
    proof (cases r)
      case None
      then show ?thesis
        using ieee_ok [OF ane la tne lt, of "[]"] ane q
        by (simp add: format_ieee_citation_def formatted_title_def)
    next
      case (Some y)
      then have y4: "four_digit_text y" using r4 by simp
      show ?thesis
        using ieee_ok [OF ane la tne lt, of "'' '' @ y @ ''.''"] ane q Some four_digit_nonempty [OF y4]
        by (simp add: format_ieee_citation_def formatted_title_def)
    qed
    with IEEE r show ?thesis
      by (simp add: validate_citation_format_def format_citation_def Let_def)
  qed
qed

theorem round_trip_witness:
  "validate_citation_format (init_formatter APA 2026)
     (format_citation (init_formatter APA 2026) ''Smith_2020_ClimateData.pdf'' empty_metadata) \<and>
   validate_citation_format (init_formatter MLA 2026)
     (format_citation (init_formatter MLA 2026) ''Smith_2020_ClimateData.pdf'' empty_metadata) \<and>
   validate_citation_format (init_formatter CHICAGO 2026)
     (format_citation (init_formatter CHICAGO 2026) ''Smith_2020_ClimateData.pdf'' empty_metadata) \<and>
   validate_citation_format (init_formatter IEEE 2026)
     (format_citation (init_formatter IEEE 2026) ''Smith_2020_ClimateData.pdf'' empty_metadata)"
proof -
  have one: "\<And>s. validate_citation_format (init_formatter s 2026)
     (format_citation (init_formatter s 2026) ''Smith_2020_ClimateData.pdf'' empty_metadata)"
  proof -
    fix s
    let ?st = "init_formatter s 2026"
    let ?f = "''Smith_2020_ClimateData.pdf''"
    have cy: "current_year ?st \<le> 9999" by (simp add: init_formatter_def)
    have sy: "style ?st = s" by (simp add: init_formatter_def)
    have la: "one_line (extract_author ?st empty_metadata ?f False)"
      by (simp add: smith_author one_line_def)
    have lt: "one_line (extract_title empty_metadata ?f)"
      by (simp add: smith_title one_line_def)
    have y: "extract_year ?st empty_metadata ?f \<noteq> Inr None"
      by (simp add: smith_year init_formatter_def)
    have q: "\<not> startswith (extract_title empty_metadata ?f) dq"
      by (simp add: smith_title dq_def)
    have a: "extract_author ?st empty_metadata ?f False \<noteq> []"
      by (simp add: smith_author)
    have pres: "style ?st = APA \<or>
        (style ?st = MLA \<and> extract_author ?st empty_metadata ?f False \<noteq> [] \<and>
           extract_year ?st empty_metadata ?f \<noteq> Inr None \<and> \<not> startswith (extract_title empty_metadata ?f) dq) \<or>
        (style ?st = CHICAGO \<and> extract_author ?st empty_metadata ?f False \<noteq> [] \<and>
           extract_year ?st empty_metadata ?f \<noteq> Inr None) \<or>
        (style ?st = IEEE \<and> extract_author ?st empty_metadata ?f False \<noteq> [] \<and>
           \<not> startswith (extract_title empty_metadata ?f) dq)"
      using sy y q a by (cases s) simp_all
    show "validate_citation_format ?st (format_citation ?st ?f empty_metadata)"
      by (rule round_trip [OF cy la lt pres])
  qed
  show ?thesis by (intro conjI one)
qed

end
